theory Spec2Isabelle
  imports Main
begin

section \<open>Strings, runes and the dictionary stores\<close>

text \<open>
  A Go string is represented by the sequence of its Unicode code points. The strings the
  package handles are valid UTF-8, and every byte-level operation of the source
  (\<^verbatim>\<open>ss[1]\<close> on a match of \<^verbatim>\<open>#[0123459]\<close>, the offsets returned by the regular
  expressions, \<^verbatim>\<open>strings.Cut\<close> at the ASCII semicolon, the comparison
  \<^verbatim>\<open>input < " "\<close>) either touches ASCII characters only or is order preserving under
  UTF-8, so it coincides with the same operation on code points.
\<close>

type_synonym rune = nat
type_synonym gostring = "rune list"

definition str :: "string \<Rightarrow> gostring" where
  "str s = map of_char s"

text \<open>\<^verbatim>\<open>markerWhite\<close> is U+25BD, \<^verbatim>\<open>markerBlack\<close> is U+25BC.\<close>

definition markerWhite :: gostring where
  "markerWhite = [0x25BD]"

definition markerBlack :: gostring where
  "markerBlack = [0x25BC]"

text \<open>
  A slice is its header: the array it points into, the position of its first element
  in that array, its length and its capacity. The \<^verbatim>\<open>nil\<close> slice has length and
  capacity 0. The arrays live in a memory that gives the contents of the array at each
  address; \<open>nextAddr\<close> is the first address that is not in use, and \<open>growCap\<close> is
  the capacity the runtime chooses when \<^verbatim>\<open>append\<close> has to allocate (at least the
  length asked for). Two slices with the same array share its elements, so that a write
  through one is seen through the other.
\<close>

record slice =
  arr :: nat
  off :: nat
  len :: nat
  cap :: nat

definition nilSlice :: slice where
  "nilSlice = \<lparr>arr = 0, off = 0, len = 0, cap = 0\<rparr>"

text \<open>
  The type \<^verbatim>\<open>Jisyo\<close> is a Go map from a reading to a slice of candidates; a
  \<^verbatim>\<open>nil\<close> map is \<open>None\<close>. \<open>Jisyo\<close> below is what such a map holds when it is
  read: the reading's ordered candidate list.
\<close>

type_synonym Jisyo = "gostring \<rightharpoonup> gostring list"
type_synonym JisyoMap = "(gostring \<rightharpoonup> slice) option"

record memory =
  userMap :: JisyoMap
  systemMap :: JisyoMap
  arrays :: "nat \<Rightarrow> gostring list"
  nextAddr :: nat
  growCap :: "nat \<Rightarrow> nat"

text \<open>The elements of a slice, and a slice that lies within its array.\<close>

definition elems :: "(nat \<Rightarrow> gostring list) \<Rightarrow> slice \<Rightarrow> gostring list" where
  "elems A s = map (\<lambda>i. A (arr s) ! (off s + i)) [0 ..< len s]"

definition wfSlice :: "(nat \<Rightarrow> gostring list) \<Rightarrow> slice \<Rightarrow> bool" where
  "wfSlice A s \<longleftrightarrow> len s \<le> cap s \<and> off s + cap s \<le> length (A (arr s))"

text \<open>Reading a map: a \<^verbatim>\<open>nil\<close> map has no key.\<close>

definition lookupMap :: "JisyoMap \<Rightarrow> gostring \<Rightarrow> slice option" where
  "lookupMap m key = (case m of None \<Rightarrow> None | Some mp \<Rightarrow> mp key)"

definition contents :: "(nat \<Rightarrow> gostring list) \<Rightarrow> JisyoMap \<Rightarrow> Jisyo" where
  "contents A m = (\<lambda>key. map_option (elems A) (lookupMap m key))"

text \<open>
  Modelled from the spec: the kana table type \<^verbatim>\<open>_Kana\<close> is declared outside the given
  sources; the spec describes it as an immutable map from romaji fragment to kana string.
  Only its \<^verbatim>\<open>table\<close> field is read by the code below.
\<close>

record Kana =
  table :: "gostring \<rightharpoonup> gostring"

text \<open>
  A command bound to a key is either one of the host editor (an opaque value) or a
  \<^verbatim>\<open>rl.GoCommand\<close> created by this package, identified by its \<^verbatim>\<open>Name\<close>.
\<close>

datatype 'h Command = HostCommand 'h | GoCommand string

text \<open>
  \<^verbatim>\<open>Mode\<close>: the field \<open>heap\<close> holds the two maps \<^verbatim>\<open>User\<close> and \<^verbatim>\<open>System\<close>
  and the memory their slices point into. A Go \<^verbatim>\<open>nil\<close> command is \<open>None\<close>, and the
  \<^verbatim>\<open>nil\<close> slice \<^verbatim>\<open>saveMap\<close> of a fresh \<^verbatim>\<open>Mode\<close> is \<open>None\<close> as well. The
  \<^verbatim>\<open>QueryPrompter\<close> only formats terminal output, which is not modelled.
\<close>

record 'h Mode =
  heap :: memory
  saveMap :: "'h Command option list option"
  kana :: Kana

text \<open>What \<^verbatim>\<open>M.User[source]\<close> and \<^verbatim>\<open>M.System[source]\<close> read.\<close>

definition User :: "'h Mode \<Rightarrow> Jisyo" where
  "User M = contents (arrays (heap M)) (userMap (heap M))"

definition System :: "'h Mode \<Rightarrow> Jisyo" where
  "System M = contents (arrays (heap M)) (systemMap (heap M))"

section \<open>Numeral abstraction\<close>

definition isDigit :: "rune \<Rightarrow> bool" where
  "isDigit c \<longleftrightarrow> 0x30 \<le> c \<and> c \<le> 0x39"

text \<open>
  \<^verbatim>\<open>rxNumber.FindStringIndex\<close> for the pattern \<^verbatim>\<open>[0-9]+\<close>: the leftmost match,
  extended greedily; \<open>None\<close> is Go's \<^verbatim>\<open>nil\<close> location.
\<close>

definition rxNumber_FindStringIndex :: "gostring \<Rightarrow> (nat \<times> nat) option" where
  "rxNumber_FindStringIndex s =
     (let lo = length (takeWhile (\<lambda>c. \<not> isDigit c) s) in
      if lo = length s then None
      else Some (lo, lo + length (takeWhile isDigit (drop lo s))))"

text \<open>The map \<^verbatim>\<open>kansuji\<close>; a rune that is no key yields Go's zero value, the empty string.\<close>

definition kansuji :: "rune \<Rightarrow> gostring" where
  "kansuji r =
     (if r = 0x30 then [0x3007] else if r = 0x31 then [0x4E00]
      else if r = 0x32 then [0x4E8C] else if r = 0x33 then [0x4E09]
      else if r = 0x34 then [0x56DB] else if r = 0x35 then [0x4E94]
      else if r = 0x36 then [0x516D] else if r = 0x37 then [0x4E03]
      else if r = 0x38 then [0x516B] else if r = 0x39 then [0x4E5D]
      else [])"

definition numberToKanji :: "gostring \<Rightarrow> gostring" where
  "numberToKanji s = concat (map kansuji s)"

definition hanToZen :: "rune \<Rightarrow> rune" where
  "hanToZen c =
     (if c < 0x20 \<or> c \<ge> 0x7F then c
      else if c = 0x20 then 0x3000
      else c - 0x20 + 0xFF00)"

definition hanToZenString :: "gostring \<Rightarrow> gostring" where
  "hanToZenString s = map hanToZen s"

text \<open>The set of style digits accepted by \<^verbatim>\<open>rxToNumber\<close>, that is \<^verbatim>\<open>#[0123459]\<close>.\<close>

definition styleCode :: "rune \<Rightarrow> bool" where
  "styleCode c \<longleftrightarrow> c = 0x30 \<or> c = 0x31 \<or> c = 0x32 \<or> c = 0x33 \<or> c = 0x34 \<or> c = 0x35 \<or> c = 0x39"

text \<open>The function literal of \<^verbatim>\<open>lookup\<close>, a switch on the second byte of the match.\<close>

definition numeralStyle :: "gostring \<Rightarrow> rune \<Rightarrow> gostring" where
  "numeralStyle number c =
     (if c = 0x30 then number
      else if c = 0x31 then hanToZenString number
      else if c = 0x32 then numberToKanji number
      else if c = 0x33 then numberToKanji number
      else number)"

text \<open>
  \<^verbatim>\<open>rxToNumber.ReplaceAllStringFunc\<close>: the matches are taken left to right without
  overlap, and a replacement is not scanned again.
\<close>

fun rxToNumber_ReplaceAll :: "gostring \<Rightarrow> gostring \<Rightarrow> gostring" where
  "rxToNumber_ReplaceAll number (h # c # rest) =
     (if h = 0x23 \<and> styleCode c then numeralStyle number c @ rxToNumber_ReplaceAll number rest
      else h # rxToNumber_ReplaceAll number (c # rest))"
| "rxToNumber_ReplaceAll number s = s"

text \<open>The method \<^verbatim>\<open>_lookup\<close>: the User store first, the System store on a miss.\<close>

definition lookup0 :: "'h Mode \<Rightarrow> gostring \<Rightarrow> gostring list option" where
  "lookup0 M source =
     (case User M source of
        Some list \<Rightarrow> Some list
      | None \<Rightarrow> System M source)"

text \<open>
  \<^verbatim>\<open>lookup\<close> returns a pair of a list and a flag; the pair \<^verbatim>\<open>(nil, false)\<close> is \<open>None\<close>
  and \<^verbatim>\<open>(list, true)\<close> is \<open>Some list\<close>.
\<close>

definition lookup :: "'h Mode \<Rightarrow> gostring \<Rightarrow> gostring list option" where
  "lookup M source =
     (case lookup0 M source of
        Some list \<Rightarrow> Some list
      | None \<Rightarrow>
         (case rxNumber_FindStringIndex source of
            None \<Rightarrow> None
          | Some (lo, hi) \<Rightarrow>
             (let number = take (hi - lo) (drop lo source);
                  source' = take lo source @ [0x23] @ drop hi source
              in case lookup0 M source' of
                   None \<Rightarrow> None
                 | Some list \<Rightarrow> Some (map (rxToNumber_ReplaceAll number) list))))"

section \<open>Go string and slice primitives\<close>

text \<open>Go's \<^verbatim>\<open><\<close> on strings is the lexicographic order.\<close>

fun strLess :: "gostring \<Rightarrow> gostring \<Rightarrow> bool" where
  "strLess [] [] = False"
| "strLess [] (y # ys) = True"
| "strLess (x # xs) [] = False"
| "strLess (x # xs) (y # ys) = (x < y \<or> (x = y \<and> strLess xs ys))"

text \<open>\<^verbatim>\<open>strings.Index\<close>: the position of the first occurrence, \<open>-1\<close> when there is none.\<close>

fun strings_Index :: "gostring \<Rightarrow> gostring \<Rightarrow> int" where
  "strings_Index [] sub = (if sub = [] then 0 else - 1)"
| "strings_Index (c # s) sub =
     (if take (length sub) (c # s) = sub then 0
      else let r = strings_Index s sub in if r < 0 then - 1 else r + 1)"

definition strings_IndexByte :: "gostring \<Rightarrow> rune \<Rightarrow> int" where
  "strings_IndexByte s b = strings_Index s [b]"

text \<open>\<^verbatim>\<open>strings.Cut\<close> with a separator of one character.\<close>

definition strings_Cut :: "gostring \<Rightarrow> rune \<Rightarrow> gostring \<times> gostring \<times> bool" where
  "strings_Cut s sep =
     (if sep \<in> set s
      then (takeWhile (\<lambda>c. c \<noteq> sep) s, tl (dropWhile (\<lambda>c. c \<noteq> sep) s), True)
      else (s, [], False))"

text \<open>An index expression \<^verbatim>\<open>xs[i]\<close>; \<open>None\<close> is the run-time panic of an index out of range.\<close>

definition idx :: "'a list \<Rightarrow> int \<Rightarrow> 'a option" where
  "idx xs i = (if 0 \<le> i \<and> i < int (length xs) then Some (xs ! nat i) else None)"

text \<open>
  \<^verbatim>\<open>copy(xs[pos:], xs[pos+1:])\<close> on the cells of the host's buffer, for
  \<open>pos < length xs\<close>: every later cell moves one place down and the last one stays
  where it was.
\<close>

definition copyDown :: "'a list \<Rightarrow> nat \<Rightarrow> 'a list" where
  "copyDown xs pos = take pos xs @ drop (Suc pos) xs @ [last xs]"

text \<open>
  The slice expressions \<^verbatim>\<open>s[i:]\<close> and \<^verbatim>\<open>s[:k]\<close>, the built-in \<^verbatim>\<open>copy\<close>, which
  reads the source elements before it writes, and the assignment \<^verbatim>\<open>s[i] = x\<close>. All
  of them write into the array the slice points into.
\<close>

definition sliceFrom :: "slice \<Rightarrow> nat \<Rightarrow> slice" where
  "sliceFrom s i = s\<lparr>off := off s + i, len := len s - i, cap := cap s - i\<rparr>"

definition sliceTo :: "slice \<Rightarrow> nat \<Rightarrow> slice" where
  "sliceTo s k = s\<lparr>len := k\<rparr>"

definition go_copy :: "(nat \<Rightarrow> gostring list) \<Rightarrow> slice \<Rightarrow> slice \<Rightarrow> (nat \<Rightarrow> gostring list)" where
  "go_copy A dst src =
     (let n = min (len dst) (len src);
          vals = take n (elems A src);
          old = A (arr dst)
      in A(arr dst := take (off dst) old @ vals @ drop (off dst + n) old))"

definition setAt :: "(nat \<Rightarrow> gostring list) \<Rightarrow> slice \<Rightarrow> nat \<Rightarrow> gostring \<Rightarrow> (nat \<Rightarrow> gostring list)" where
  "setAt A s i x = A(arr s := (A (arr s))[off s + i := x])"

text \<open>
  \<^verbatim>\<open>append(s, x)\<close>: with spare capacity the element is written into the array of
  \<open>s\<close>, behind its last element; without, a new array is allocated, the elements are
  copied into it, and the rest of it holds empty strings.
\<close>

definition append1 :: "memory \<Rightarrow> slice \<Rightarrow> gostring \<Rightarrow> slice \<times> memory" where
  "append1 m s x =
     (if len s < cap s then
        (s\<lparr>len := Suc (len s)\<rparr>,
         m\<lparr>arrays := (arrays m)(arr s := (arrays m (arr s))[off s + len s := x])\<rparr>)
      else
        (let c = max (Suc (len s)) (growCap m (Suc (len s)));
             xs = elems (arrays m) s @ x # replicate (c - Suc (len s)) []
         in (\<lparr>arr = nextAddr m, off = 0, len = Suc (len s), cap = c\<rparr>,
             m\<lparr>arrays := (arrays m)(nextAddr m := xs), nextAddr := Suc (nextAddr m)\<rparr>)))"

text \<open>
  The method \<^verbatim>\<open>_lookup\<close> and the method \<^verbatim>\<open>lookup\<close> with the slices they return:
  for an exact match the slice the store holds, for a match of the placeholder reading
  a new slice, made with the length of the stored one as its capacity and filled by
  \<^verbatim>\<open>append\<close>. \<open>lookup0\<close> and \<open>lookup\<close> above give the elements of these slices.
\<close>

definition lookup0_slice :: "memory \<Rightarrow> gostring \<Rightarrow> slice option" where
  "lookup0_slice m source =
     (case lookupMap (userMap m) source of
        Some list \<Rightarrow> Some list
      | None \<Rightarrow> lookupMap (systemMap m) source)"

definition lookup_slice :: "memory \<Rightarrow> gostring \<Rightarrow> slice option \<times> memory" where
  "lookup_slice m source =
     (case lookup0_slice m source of
        Some list \<Rightarrow> (Some list, m)
      | None \<Rightarrow>
         (case rxNumber_FindStringIndex source of
            None \<Rightarrow> (None, m)
          | Some (lo, hi) \<Rightarrow>
             (let number = take (hi - lo) (drop lo source);
                  source' = take lo source @ [0x23] @ drop hi source
              in case lookup0_slice m source' of
                   None \<Rightarrow> (None, m)
                 | Some list \<Rightarrow>
                    (let newList = map (rxToNumber_ReplaceAll number) (elems (arrays m) list)
                     in (Some \<lparr>arr = nextAddr m, off = 0, len = len list, cap = len list\<rparr>,
                         m\<lparr>arrays := (arrays m)(nextAddr m := newList),
                           nextAddr := Suc (nextAddr m)\<rparr>)))))"

section \<open>The host editor\<close>

text \<open>
  The buffer of the host line editor: one cell for each character, the cursor, and the
  key bindings, where \<open>KeyMap b key\<close> is the command that \<^verbatim>\<open>Lookup\<close> returns for the
  key code (\<open>None\<close> for \<^verbatim>\<open>nil\<close>). The primitives are those the spec lists as consumed
  from the host: replace the region between a position and the cursor, insert at the
  cursor, read a substring, bind a key.
\<close>

record 'h rl_Buffer =
  Buffer :: "rune list"
  Cursor :: int
  KeyMap :: "gostring \<Rightarrow> 'h Command option"

definition ReplaceAndRepaint :: "'h rl_Buffer \<Rightarrow> int \<Rightarrow> gostring \<Rightarrow> 'h rl_Buffer" where
  "ReplaceAndRepaint b pos s =
     b\<lparr>Buffer := take (nat pos) (Buffer b) @ s @ drop (nat (Cursor b)) (Buffer b),
       Cursor := pos + int (length s)\<rparr>"

definition InsertAndRepaint :: "'h rl_Buffer \<Rightarrow> gostring \<Rightarrow> 'h rl_Buffer" where
  "InsertAndRepaint b s =
     b\<lparr>Buffer := take (nat (Cursor b)) (Buffer b) @ s @ drop (nat (Cursor b)) (Buffer b),
       Cursor := Cursor b + int (length s)\<rparr>"

definition SubString :: "'h rl_Buffer \<Rightarrow> int \<Rightarrow> int \<Rightarrow> gostring" where
  "SubString b start end = take (nat (end - start)) (drop (nat start) (Buffer b))"

definition BindKey ::
  "(gostring \<Rightarrow> 'h Command option) \<Rightarrow> gostring \<Rightarrow> 'h Command option \<Rightarrow> (gostring \<Rightarrow> 'h Command option)" where
  "BindKey km key cmd = km(key := cmd)"

datatype rl_Result = CONTINUE | ENTER | ABORT | INTR

text \<open>
  A key read by \<^verbatim>\<open>GetKey\<close> is a string and an error flag. A nested prompt
  (\<^verbatim>\<open>ask\<close>) is represented by what its \<^verbatim>\<open>ReadLine\<close> returns, the line and an
  error flag, and by the change the nested session made to the memory: with
  \<^verbatim>\<open>ime\<close> set, the nested \<^verbatim>\<open>Mode\<close> shares the maps \<^verbatim>\<open>M.User\<close> and
  \<^verbatim>\<open>M.System\<close>.
\<close>

type_synonym key_event = "gostring \<times> bool"
type_synonym reply = "gostring \<times> bool \<times> (memory \<Rightarrow> memory)"

record 'h session =
  mode :: "'h Mode"
  buf :: "'h rl_Buffer"
  replies :: "reply list"

text \<open>
  A command runs on the keys typed so far. It returns a result with the keys left over,
  or it ends with the call \<^verbatim>\<open>eval(ctx, B, input)\<close>, which hands the key to the
  command the host has bound to it, or it is blocked where it reads the next key or the
  answer to a prompt, or it panics. The number kept with a blocked state is
  \<^verbatim>\<open>current\<close>.
\<close>

datatype wait = Selecting int | Paging int | Registering | Purging int

datatype 'h outcome =
    Return rl_Result "'h session" "key_event list"
  | Eval gostring "'h session" "key_event list"
  | Blocked "'h session" wait
  | Crash

type_synonym 'h dispatch = "gostring \<Rightarrow> 'h session \<Rightarrow> key_event list \<Rightarrow> 'h outcome"

text \<open>
  \<^verbatim>\<open>eval\<close> looks the command of the key up in the host and calls it; the host's
  commands are the parameter \<open>host\<close>.
\<close>

definition eval :: "'h dispatch \<Rightarrow> 'h outcome \<Rightarrow> 'h outcome" where
  "eval host out = (case out of Eval input st ks \<Rightarrow> host input st ks | _ \<Rightarrow> out)"

section \<open>Marker handling\<close>

function seekLoop :: "rune list \<Rightarrow> int \<Rightarrow> int option" where
  "seekLoop cells i =
     (if i < 0 then Some (- 1)
      else if int (length cells) \<le> i then None
      else if [cells ! nat i] = markerWhite \<or> [cells ! nat i] = markerBlack then Some i
      else seekLoop cells (i - 1))"
  by pat_completeness auto
termination
  by (relation "measure (\<lambda>(cells, i). nat (i + 1))") auto

definition seekMarker :: "'h rl_Buffer \<Rightarrow> int option" where
  "seekMarker b = seekLoop (Buffer b) (Cursor b - 1)"

definition removeOne :: "'h rl_Buffer \<Rightarrow> int \<Rightarrow> 'h rl_Buffer option" where
  "removeOne b pos =
     (if 0 \<le> pos \<and> pos < int (length (Buffer b))
      then Some (b\<lparr>Buffer := butlast (copyDown (Buffer b) (nat pos)), Cursor := Cursor b - 1\<rparr>)
      else None)"

section \<open>The conversion controller\<close>

definition CtrlG :: gostring where
  "CtrlG = [0x07]"

definition listingStartIndex :: int where
  "listingStartIndex = 4"

text \<open>
  Writing a map: \<^verbatim>\<open>m[key] = v\<close> panics on a \<^verbatim>\<open>nil\<close> map, which is \<open>None\<close>
  here; \<^verbatim>\<open>delete(m, key)\<close> on a \<^verbatim>\<open>nil\<close> map does nothing.
\<close>

definition mapStore :: "JisyoMap \<Rightarrow> gostring \<Rightarrow> slice \<Rightarrow> JisyoMap option" where
  "mapStore m key v = (case m of None \<Rightarrow> None | Some mp \<Rightarrow> Some (Some (mp(key \<mapsto> v))))"

definition mapDelete :: "JisyoMap \<Rightarrow> gostring \<Rightarrow> JisyoMap" where
  "mapDelete m key = map_option (\<lambda>mp. mp(key := None)) m"

definition setHeap :: "'h session \<Rightarrow> memory \<Rightarrow> 'h session" where
  "setHeap st m = st\<lparr>mode := (mode st)\<lparr>heap := m\<rparr>\<rparr>"

text \<open>The elements of a slice in the memory of the session.\<close>

definition cands :: "'h session \<Rightarrow> slice \<Rightarrow> gostring list" where
  "cands st list = elems (arrays (heap (mode st))) list"

text \<open>
  \<^verbatim>\<open>newCandidate\<close> either finds no answer to its prompt yet, or panics, or returns
  its two results in a new state.
\<close>

datatype 'h asked = NoAnswer | Panic | Answer "'h session" gostring bool

definition newCandidate :: "'h session \<Rightarrow> gostring \<Rightarrow> 'h asked" where
  "newCandidate st source =
     (case replies st of
        [] \<Rightarrow> NoAnswer
      | (newWord, err, nested) # rest \<Rightarrow>
         (let st1 = st\<lparr>mode := (mode st)\<lparr>heap := nested (heap (mode st))\<rparr>, replies := rest\<rparr> in
          if err \<or> length newWord \<le> 0 then Answer st1 [] False
          else
            (case lookup_slice (heap (mode st1)) source of
               (found, m2) \<Rightarrow>
                (let list = (case found of None \<Rightarrow> nilSlice | Some l \<Rightarrow> l) in
                 if newWord \<in> set (elems (arrays m2) list) then Answer (setHeap st1 m2) newWord True
                 else
                   (case append1 m2 list [] of
                      (list1, m3) \<Rightarrow>
                       (let A4 = go_copy (arrays m3) (sliceFrom list1 1) list1;
                            A5 = setAt A4 list1 0 newWord
                        in case mapStore (userMap m3) source list1 of
                             None \<Rightarrow> Panic
                           | Some um \<Rightarrow>
                              Answer (setHeap st1 (m3\<lparr>userMap := um, arrays := A5\<rparr>)) newWord True))))))"

text \<open>
  The dictionary registration block, which \<^verbatim>\<open>henkanMode\<close> contains twice: where the
  reading is not found, and where the advance key moves past the last candidate.
\<close>

definition registerWord :: "'h session \<Rightarrow> int \<Rightarrow> gostring \<Rightarrow> key_event list \<Rightarrow> 'h outcome" where
  "registerWord st markerPos source ks =
     (case newCandidate st source of
        NoAnswer \<Rightarrow> Blocked st Registering
      | Panic \<Rightarrow> Crash
      | Answer st1 result ok \<Rightarrow>
         if ok then Return CONTINUE (st1\<lparr>buf := ReplaceAndRepaint (buf st1) markerPos result\<rparr>) ks
         else Return CONTINUE (st1\<lparr>buf := ReplaceAndRepaint (buf st1) markerPos (markerWhite @ source)\<rparr>) ks)"

text \<open>
  The loop over the key row \<^verbatim>\<open>ASDFJKL:\<close> that lays a page out; its result is
  \<^verbatim>\<open>_current\<close>. The prompt text it builds goes to the terminal only.
\<close>

fun pageLoop :: "gostring list \<Rightarrow> int \<Rightarrow> gostring \<Rightarrow> int option" where
  "pageLoop list c [] = Some c"
| "pageLoop list c (key # row) =
     (if int (length list) \<le> c then Some c
      else case idx list c of None \<Rightarrow> None | Some e \<Rightarrow> pageLoop list (c + 1) row)"

text \<open>
  The two loops of \<^verbatim>\<open>henkanMode\<close>: the outer one shows one candidate at a time, the
  inner one a page of candidates. Each iteration reads one key; the inner loop lays its
  page out before it reads. The variable \<^verbatim>\<open>list\<close> is a slice, and its elements are
  read from the memory of the state each time.
\<close>

fun selectLoop ::
    "int \<Rightarrow> gostring \<Rightarrow> gostring \<Rightarrow> slice \<Rightarrow> 'h session \<Rightarrow> int \<Rightarrow> key_event list \<Rightarrow> 'h outcome"
  and pagingLoop ::
    "int \<Rightarrow> gostring \<Rightarrow> gostring \<Rightarrow> slice \<Rightarrow> 'h session \<Rightarrow> int \<Rightarrow> key_event list \<Rightarrow> 'h outcome"
where
  "selectLoop markerPos source postfix list st current [] = Blocked st (Selecting current)"
| "selectLoop markerPos source postfix list st current ((input, err) # ks) =
     (if input = CtrlG then
        Return CONTINUE (st\<lparr>buf := ReplaceAndRepaint (buf st) markerPos (markerWhite @ source)\<rparr>) ks
      else if strLess input (str '' '') then
        (case removeOne (buf st) markerPos of
           None \<Rightarrow> Crash
         | Some b \<Rightarrow> Return CONTINUE (st\<lparr>buf := b\<rparr>) ks)
      else if input = str '' '' then
        (if int (len list) \<le> current + 1 then registerWord st markerPos source ks
         else if listingStartIndex \<le> current + 1 then
           pagingLoop markerPos source postfix list st (current + 1) ks
         else
           (case idx (cands st list) (current + 1) of
              None \<Rightarrow> Crash
            | Some e \<Rightarrow>
               selectLoop markerPos source postfix list
                 (st\<lparr>buf := ReplaceAndRepaint (buf st) markerPos
                              (markerBlack @ fst (strings_Cut e 0x3B) @ postfix)\<rparr>)
                 (current + 1) ks))
      else if input = str ''x'' then
        (if current - 1 < 0 then
           Return CONTINUE (st\<lparr>buf := ReplaceAndRepaint (buf st) markerPos (markerWhite @ source)\<rparr>) ks
         else
           (case idx (cands st list) (current - 1) of
              None \<Rightarrow> Crash
            | Some e \<Rightarrow>
               selectLoop markerPos source postfix list
                 (st\<lparr>buf := ReplaceAndRepaint (buf st) markerPos
                              (markerBlack @ fst (strings_Cut e 0x3B) @ postfix)\<rparr>)
                 (current - 1) ks))
      else if input = str ''X'' then
        (case idx (cands st list) current of
           None \<Rightarrow> Crash
         | Some e \<Rightarrow>
            (case replies st of
               [] \<Rightarrow> Blocked st (Purging current)
             | (ans, aerr, nested) # rest \<Rightarrow>
                (if \<not> aerr \<and> (ans = str ''y'' \<or> ans = str ''yes'') then
                   (if len list \<le> 1 then
                      Return CONTINUE
                        (st\<lparr>mode := (mode st)\<lparr>heap := (heap (mode st))
                                  \<lparr>userMap := mapDelete (userMap (heap (mode st))) source\<rparr>\<rparr>,
                            buf := ReplaceAndRepaint (buf st) markerPos [],
                            replies := rest\<rparr>) ks
                    else
                      (let m = heap (mode st);
                           A1 = (if current + 1 < int (len list)
                                 then go_copy (arrays m) (sliceFrom list (nat current))
                                        (sliceFrom list (nat current + 1))
                                 else arrays m);
                           list2 = sliceTo list (len list - 1)
                       in case mapStore (userMap m) source list2 of
                            None \<Rightarrow> Crash
                          | Some um \<Rightarrow>
                             Return CONTINUE
                               (st\<lparr>mode := (mode st)\<lparr>heap := m\<lparr>userMap := um, arrays := A1\<rparr>\<rparr>,
                                   buf := ReplaceAndRepaint (buf st) markerPos [],
                                   replies := rest\<rparr>) ks))
                 else selectLoop markerPos source postfix list (st\<lparr>replies := rest\<rparr>) current ks)))
      else
        (case removeOne (buf st) markerPos of
           None \<Rightarrow> Crash
         | Some b \<Rightarrow> Eval input (st\<lparr>buf := b\<rparr>) ks))"
| "pagingLoop markerPos source postfix list st current [] =
     (case pageLoop (cands st list) current (str ''ASDFJKL:'') of
        None \<Rightarrow> Crash
      | Some current' \<Rightarrow> Blocked st (Paging current))"
| "pagingLoop markerPos source postfix list st current ((key, err) # ks) =
     (case pageLoop (cands st list) current (str ''ASDFJKL:'') of
        None \<Rightarrow> Crash
      | Some current' \<Rightarrow>
         (if \<not> err then
            (if 0 \<le> strings_Index (str ''asdfjkl:'') key then
               (case idx (cands st list) (current + strings_Index (str ''asdfjkl:'') key) of
                  None \<Rightarrow> Crash
                | Some e \<Rightarrow>
                   Return CONTINUE
                     (st\<lparr>buf := ReplaceAndRepaint (buf st) markerPos (fst (strings_Cut e 0x3B))\<rparr>) ks)
             else if key = str '' '' then
               pagingLoop markerPos source postfix list st current' ks
             else if key = str ''x'' then
               (if current - 8 < listingStartIndex then
                  selectLoop markerPos source postfix list st
                    (if current - 8 < 0 then 0 else current - 8) ks
                else pagingLoop markerPos source postfix list st (current - 8) ks)
             else if key = CtrlG then
               Return CONTINUE
                 (st\<lparr>buf := ReplaceAndRepaint (buf st) markerPos (markerWhite @ source)\<rparr>) ks
             else pagingLoop markerPos source postfix list st current ks)
          else pagingLoop markerPos source postfix list st current ks))"

definition henkanMode ::
  "'h session \<Rightarrow> int \<Rightarrow> gostring \<Rightarrow> gostring \<Rightarrow> key_event list \<Rightarrow> 'h outcome" where
  "henkanMode st markerPos source postfix ks =
     (case lookup_slice (heap (mode st)) source of
        (found, m1) \<Rightarrow>
         (case found of
            None \<Rightarrow> registerWord (setHeap st m1) markerPos source ks
          | Some list \<Rightarrow>
             (case idx (cands (setHeap st m1) list) 0 of
                None \<Rightarrow> Crash
              | Some e \<Rightarrow>
                 selectLoop markerPos source postfix list
                   ((setHeap st m1)\<lparr>buf := ReplaceAndRepaint (buf st) markerPos
                                (markerBlack @ fst (strings_Cut e 0x3B) @ postfix)\<rparr>)
                   0 ks)))"

text \<open>
  \<^verbatim>\<open>_Trigger.Call\<close>. The key of a trigger is a lower-case ASCII letter. The command
  \<^verbatim>\<open>_Romaji.Call\<close>, whose source is not given, is the parameter \<open>romaji\<close>; it receives
  the field \<^verbatim>\<open>last\<close>.
\<close>

definition Trigger_Call ::
  "'h dispatch \<Rightarrow> rune \<Rightarrow> 'h session \<Rightarrow> key_event list \<Rightarrow> 'h outcome" where
  "Trigger_Call romaji key st ks =
     (case seekMarker (buf st) of
        None \<Rightarrow> Crash
      | Some markerPos \<Rightarrow>
         if 0 \<le> markerPos then
           (let source = SubString (buf st) (markerPos + 1) (Cursor (buf st)) @ [key];
                postfix = (if 0 \<le> strings_IndexByte (str ''aiueo'') key
                           then (case table (kana (mode st)) [key] of None \<Rightarrow> [] | Some s \<Rightarrow> s)
                           else [key])
            in henkanMode st markerPos source postfix ks)
         else romaji [key] (st\<lparr>buf := InsertAndRepaint (buf st) markerWhite\<rparr>) ks)"

definition cmdStartHenkan :: "'h session \<Rightarrow> key_event list \<Rightarrow> 'h outcome" where
  "cmdStartHenkan st ks =
     (case seekMarker (buf st) of
        None \<Rightarrow> Crash
      | Some markerPos \<Rightarrow>
         if markerPos < 0 then Return CONTINUE (st\<lparr>buf := InsertAndRepaint (buf st) (str '' '')\<rparr>) ks
         else henkanMode st markerPos
                (SubString (buf st) (markerPos + 1) (Cursor (buf st))) [] ks)"

section \<open>Key bindings\<close>

text \<open>The key code of the rune \<open>i\<close> is the string of that one rune.\<close>

definition backupKeyMap :: "'h Mode \<Rightarrow> (gostring \<Rightarrow> 'h Command option) \<Rightarrow> 'h Mode" where
  "backupKeyMap M km =
     (if saveMap M \<noteq> None then M
      else M\<lparr>saveMap := Some (map (\<lambda>i. km [i]) [0 ..< Suc 0x80])\<rparr>)"

definition restoreKeyMap ::
  "'h Mode \<Rightarrow> (gostring \<Rightarrow> 'h Command option) \<Rightarrow> (gostring \<Rightarrow> 'h Command option)" where
  "restoreKeyMap M km =
     (case saveMap M of
        None \<Rightarrow> km
      | Some cmds \<Rightarrow> foldl (\<lambda>k (i, command). BindKey k [i] command) km (zip [0 ..< length cmds] cmds))"

definition cmdLatinMode :: "'h session \<Rightarrow> key_event list \<Rightarrow> 'h outcome" where
  "cmdLatinMode st ks =
     Return CONTINUE (st\<lparr>buf := (buf st)\<lparr>KeyMap := restoreKeyMap (mode st) (KeyMap (buf st))\<rparr>\<rparr>) ks"

definition cmdKakutei :: "'h session \<Rightarrow> key_event list \<Rightarrow> 'h outcome" where
  "cmdKakutei st ks =
     (case seekMarker (buf st) of
        None \<Rightarrow> Crash
      | Some markerPos \<Rightarrow>
         if markerPos < 0 then cmdLatinMode st ks
         else (case removeOne (buf st) markerPos of
                 None \<Rightarrow> Crash
               | Some b \<Rightarrow> Return CONTINUE (st\<lparr>buf := b\<rparr>) ks))"

definition cmdCancel :: "'h session \<Rightarrow> key_event list \<Rightarrow> 'h outcome" where
  "cmdCancel st ks =
     (case seekMarker (buf st) of
        None \<Rightarrow> Crash
      | Some markerPos \<Rightarrow>
         if markerPos < 0 then cmdLatinMode st ks
         else Return CONTINUE (st\<lparr>buf := ReplaceAndRepaint (buf st) markerPos []\<rparr>) ks)"


section \<open>The marked region\<close>

text \<open>
  Predicates for the marker invariant. The region of a conversion lies between the
  cells \<open>pre\<close> left of the marker position and the cells \<open>post\<close> right of the
  cursor; \<open>regionText\<close> is what the buffer holds in between, and the cursor stands at
  the end of the region.
\<close>

definition isMarker :: "rune \<Rightarrow> bool" where
  "isMarker c \<longleftrightarrow> [c] = markerWhite \<or> [c] = markerBlack"

definition markerFree :: "gostring \<Rightarrow> bool" where
  "markerFree s \<longleftrightarrow> (\<forall>c\<in>set s. \<not> isMarker c)"






section \<open>Example inputs\<close>

text \<open>
  A memory with five arrays. The User map has the reading U+304B U+304F with two
  candidates, the first one with an annotation, and five candidates each for the reading
  U+304B and for the same reading followed by the okurigana consonant \<^verbatim>\<open>k\<close>; the
  System map has another entry for U+304B U+304F and the placeholder reading
  U+3068 U+3057 \<^verbatim>\<open>#\<close>. Every slice fills its array.
\<close>

definition exCands :: "gostring list" where
  "exCands = [[0x868A], [0x53EF], [0x8AB2], [0x79D1], [0x706B]]"

definition exOkuriCands :: "gostring list" where
  "exOkuriCands = [[0x66F8], [0x6B20], [0x63CF], [0x639B], [0x67B6]]"

definition exArrays :: "nat \<Rightarrow> gostring list" where
  "exArrays a =
     (if a = 1 then [[0x66F8, 0x304F, 0x3B, 0x77], [0x753B, 0x304F]]
      else if a = 2 then exCands
      else if a = 3 then exOkuriCands
      else if a = 4 then [[0x6B20, 0x304F]]
      else if a = 5 then [[0x5E74, 0x23, 0x30], [0x23, 0x32, 0x6B73]]
      else [])"

definition exUserMap :: "gostring \<rightharpoonup> slice" where
  "exUserMap =
     [[0x304B, 0x304F] \<mapsto> \<lparr>arr = 1, off = 0, len = 2, cap = 2\<rparr>,
      [0x304B] \<mapsto> \<lparr>arr = 2, off = 0, len = 5, cap = 5\<rparr>,
      [0x304B, 0x6B] \<mapsto> \<lparr>arr = 3, off = 0, len = 5, cap = 5\<rparr>]"

definition exSystemMap :: "gostring \<rightharpoonup> slice" where
  "exSystemMap =
     [[0x304B, 0x304F] \<mapsto> \<lparr>arr = 4, off = 0, len = 1, cap = 1\<rparr>,
      [0x3068, 0x3057, 0x23] \<mapsto> \<lparr>arr = 5, off = 0, len = 2, cap = 2\<rparr>]"

definition exMemory :: memory where
  "exMemory =
     \<lparr>userMap = Some exUserMap, systemMap = Some exSystemMap,
      arrays = exArrays, nextAddr = 6, growCap = (\<lambda>n. 2 * n)\<rparr>"

definition exStores :: "unit Mode" where
  "exStores = \<lparr>heap = exMemory, saveMap = None, kana = \<lparr>table = Map.empty\<rparr>\<rparr>"

text \<open>
  The slices of the readings U+304B, U+304B \<^verbatim>\<open>k\<close>, U+304B U+304F and
  U+3068 U+3057 \<^verbatim>\<open>#\<close>.
\<close>

definition exList :: slice where
  "exList = \<lparr>arr = 2, off = 0, len = 5, cap = 5\<rparr>"

definition exOkuriList :: slice where
  "exOkuriList = \<lparr>arr = 3, off = 0, len = 5, cap = 5\<rparr>"

definition exKakuList :: slice where
  "exKakuList = \<lparr>arr = 1, off = 0, len = 2, cap = 2\<rparr>"

definition exYearList :: slice where
  "exYearList = \<lparr>arr = 5, off = 0, len = 2, cap = 2\<rparr>"


definition exNilUser :: "unit Mode" where
  "exNilUser = exStores\<lparr>heap := exMemory\<lparr>userMap := None\<rparr>\<rparr>"

text \<open>Bindings of a host that has a command on Ctrl-J only, and bindings with one more.\<close>

definition exKeys :: "gostring \<Rightarrow> unit Command option" where
  "exKeys key = (if key = [0x0A] then Some (HostCommand ()) else None)"

definition exKanaKeys :: "gostring \<Rightarrow> unit Command option" where
  "exKanaKeys key =
     (if key = [0x0A] then Some (GoCommand ''SKK_KAKUTEI'')
      else if key = [0x07] then Some (GoCommand ''SKK_CANCEL'')
      else None)"

text \<open>
  A host that ends the line on the Enter key and inserts every other key at the cursor.
\<close>

definition exDispatch :: "unit dispatch" where
  "exDispatch key st ks =
     (if key = [0x0D] then Return ENTER st ks
      else Return CONTINUE (st\<lparr>buf := InsertAndRepaint (buf st) key\<rparr>) ks)"

text \<open>
  Sessions: the pending marker and the reading U+304B with the cursor behind it; the
  same with its first candidate shown; that candidate committed; the pending marker and
  the reading U+304B U+304F; a buffer without a marker, in a mode that has saved
  the host's bindings; and the first candidate of the reading U+3068 U+3057 \<^verbatim>\<open>#\<close>
  shown.
\<close>

definition exComposing :: "unit session" where
  "exComposing =
     \<lparr>mode = exStores,
      buf = \<lparr>Buffer = [0x25BD, 0x304B], Cursor = 2, KeyMap = exKeys\<rparr>,
      replies = []\<rparr>"

definition exSelecting :: "unit session" where
  "exSelecting =
     \<lparr>mode = exStores,
      buf = \<lparr>Buffer = [0x25BC, 0x868A], Cursor = 2, KeyMap = exKeys\<rparr>,
      replies = []\<rparr>"

definition exCommitted :: "unit session" where
  "exCommitted =
     \<lparr>mode = exStores,
      buf = \<lparr>Buffer = [0x868A], Cursor = 1, KeyMap = exKeys\<rparr>,
      replies = []\<rparr>"

definition exKaku :: "unit session" where
  "exKaku =
     \<lparr>mode = exStores,
      buf = \<lparr>Buffer = [0x25BD, 0x304B, 0x304F], Cursor = 3, KeyMap = exKeys\<rparr>,
      replies = []\<rparr>"

definition exLatin :: "unit session" where
  "exLatin =
     \<lparr>mode = exStores\<lparr>saveMap := Some [None, Some (HostCommand ())]\<rparr>,
      buf = \<lparr>Buffer = [0x61, 0x62, 0x25BD], Cursor = 2, KeyMap = exKanaKeys\<rparr>,
      replies = []\<rparr>"

definition exYear :: "unit session" where
  "exYear =
     \<lparr>mode = exStores,
      buf = \<lparr>Buffer = [0x25BC, 0x5E74, 0x23, 0x30], Cursor = 4, KeyMap = exKeys\<rparr>,
      replies = []\<rparr>"

section \<open>Slices and the memory\<close>

lemma length_elems [simp]: "length (elems A s) = len s"
  by (simp add: elems_def)

lemma elems_nth: "i < len s \<Longrightarrow> elems A s ! i = A (arr s) ! (off s + i)"
  by (simp add: elems_def)

lemma elems_wf: "wfSlice A s \<Longrightarrow> elems A s = take (len s) (drop (off s) (A (arr s)))"
  by (rule nth_equalityI) (auto simp: elems_def wfSlice_def)

lemma elems_nil [simp]: "elems A nilSlice = []"
  by (simp add: elems_def nilSlice_def)

lemma wf_nil [simp]: "wfSlice A nilSlice"
  by (simp add: wfSlice_def nilSlice_def)


lemma wfSlice_cong: "A (arr s) = B (arr s) \<Longrightarrow> wfSlice A s = wfSlice B s"
  by (simp add: wfSlice_def)

lemma elems_sliceFrom: "i \<le> len s \<Longrightarrow> elems A (sliceFrom s i) = drop i (elems A s)"
proof (rule nth_equalityI)
  show "length (elems A (sliceFrom s i)) = length (drop i (elems A s))"
    by (simp add: sliceFrom_def)
next
  fix k assume "k < length (elems A (sliceFrom s i))"
  then have k: "k < len s - i" by (simp add: sliceFrom_def)
  then have ik: "i + k < len s" by simp
  have "elems A (sliceFrom s i) ! k = A (arr s) ! (off s + i + k)"
    using k by (simp add: elems_def sliceFrom_def)
  also have "\<dots> = elems A s ! (i + k)"
    using ik by (simp add: elems_nth add.assoc)
  finally show "elems A (sliceFrom s i) ! k = drop i (elems A s) ! k"
    using ik by simp
qed

lemma elems_sliceTo: "k \<le> len s \<Longrightarrow> elems A (sliceTo s k) = take k (elems A s)"
  by (rule nth_equalityI) (simp_all add: elems_def sliceTo_def)



text \<open>
  The statements \<^verbatim>\<open>copy(list[c:], list[c+1:]); list = list[:len(list)-1]\<close>, the first
  one under its test: the shorter slice has the elements without the one at \<open>c\<close>, and
  the array still has the last element behind them.
\<close>

lemma purge_elems:
  assumes wf: "wfSlice A s" and c: "c < len s"
    and A1: "A1 = (if int c + 1 < int (len s)
                   then go_copy A (sliceFrom s c) (sliceFrom s (c + 1)) else A)"
  shows "elems A1 (sliceTo s (len s - 1)) = take c (elems A s) @ drop (Suc c) (elems A s)"
    and "elems A1 s = take c (elems A s) @ drop (Suc c) (elems A s) @ [last (elems A s)]"
    and "\<forall>a. a \<noteq> arr s \<longrightarrow> A1 a = A a"
    and "length (A1 (arr s)) = length (A (arr s))"
proof -
  let ?old = "A (arr s)"
  let ?n = "len s"
  let ?o = "off s"
  let ?L = "elems A s"
  have bound: "?o + ?n \<le> length ?old" using wf by (simp add: wfSlice_def)
  have ne: "?L \<noteq> []"
  proof
    assume "?L = []"
    then have "length ?L = 0" by simp
    with c show False by simp
  qed
  have lastL: "last ?L = ?L ! (?n - 1)"
    using ne by (simp add: last_conv_nth)
  have full: "elems A1 s = take c ?L @ drop (Suc c) ?L @ [last ?L]"
  proof (cases "Suc c < ?n")
    case True
    have src: "elems A (sliceFrom s (Suc c)) = drop (Suc c) ?L"
      using True by (simp add: elems_sliceFrom)
    have n: "min (len (sliceFrom s c)) (len (sliceFrom s (Suc c))) = ?n - Suc c"
      by (simp add: sliceFrom_def)
    have d: "arr (sliceFrom s c) = arr s" "off (sliceFrom s c) = ?o + c"
      by (simp_all add: sliceFrom_def)
    have e: "?o + c + (?n - Suc c) = ?o + ?n - 1" using True by simp
    have "go_copy A (sliceFrom s c) (sliceFrom s (Suc c)) (arr s) =
        take (?o + c) ?old @ take (?n - Suc c) (drop (Suc c) ?L) @ drop (?o + c + (?n - Suc c)) ?old"
      unfolding go_copy_def Let_def n d src by simp
    then have arr1: "A1 (arr s) = take (?o + c) ?old @ drop (Suc c) ?L @ drop (?o + ?n - 1) ?old"
      unfolding e using True by (simp add: A1)
    show ?thesis
    proof (rule nth_equalityI)
      show "length (elems A1 s) = length (take c ?L @ drop (Suc c) ?L @ [last ?L])"
        using True by simp
    next
      fix i assume "i < length (elems A1 s)"
      then have i: "i < ?n" by simp
      consider (lo) "i < c" | (mid) "c \<le> i" "i < ?n - 1" | (hi) "i = ?n - 1" "c \<le> i"
        using i True by linarith
      then show "elems A1 s ! i = (take c ?L @ drop (Suc c) ?L @ [last ?L]) ! i"
      proof cases
        case lo
        then show ?thesis using i bound True
          by (simp add: elems_nth[of i s A1] arr1 nth_append elems_nth)
      next
        case mid
        then have k: "i - c < ?n - Suc c" "?o + i - (?o + c) = i - c" "\<not> ?o + i < ?o + c"
          using True by simp_all
        have "elems A1 s ! i = A1 (arr s) ! (?o + i)"
          using i by (rule elems_nth)
        also have "\<dots> = drop (Suc c) ?L ! (i - c)"
          unfolding arr1 using k bound mid by (simp add: nth_append)
        finally show ?thesis using k mid by (simp add: nth_append)
      next
        case hi
        then show ?thesis using i bound True
          by (simp add: elems_nth[of i s A1] arr1 nth_append lastL elems_nth)
      qed
    qed
  next
    case False
    with c have e: "c = ?n - 1" by simp
    have "A1 = A" using False by (simp add: A1)
    moreover have "?L = take c ?L @ [last ?L]"
    proof -
      have "butlast ?L = take c ?L" using e by (simp add: butlast_conv_take)
      with append_butlast_last_id [OF ne] show ?thesis by simp
    qed
    ultimately show ?thesis using e by simp
  qed
  show "elems A1 s = take c ?L @ drop (Suc c) ?L @ [last ?L]" by (rule full)
  have "elems A1 (sliceTo s (?n - 1)) = take (?n - 1) (elems A1 s)"
    by (rule elems_sliceTo) simp
  also have "\<dots> = take c ?L @ drop (Suc c) ?L"
    unfolding full using c by simp
  finally show "elems A1 (sliceTo s (len s - 1)) = take c ?L @ drop (Suc c) ?L" .
  show "\<forall>a. a \<noteq> arr s \<longrightarrow> A1 a = A a"
    by (simp add: A1 go_copy_def Let_def sliceFrom_def)
  show "length (A1 (arr s)) = length (A (arr s))"
    using bound c by (simp add: A1 go_copy_def Let_def sliceFrom_def elems_def)
qed

section \<open>Dictionary lookup\<close>

lemma find_none: "(\<forall>c\<in>set s. \<not> isDigit c) \<Longrightarrow> rxNumber_FindStringIndex s = None"
  by (simp add: rxNumber_FindStringIndex_def Let_def takeWhile_eq_all_conv [THEN iffD2])

lemma takeWhile_digits:
  assumes "\<forall>c\<in>set digits. isDigit c" "post = [] \<or> \<not> isDigit (hd post)"
  shows "takeWhile isDigit (digits @ post) = digits"
proof (cases post)
  case Nil
  with assms show ?thesis by simp
next
  case (Cons p ps)
  with assms have "\<not> isDigit p" by simp
  with assms(1) Cons show ?thesis by simp
qed

lemma find_run:
  assumes "\<forall>c\<in>set pre. \<not> isDigit c" "digits \<noteq> []" "\<forall>c\<in>set digits. isDigit c"
    "post = [] \<or> \<not> isDigit (hd post)"
  shows "rxNumber_FindStringIndex (pre @ digits @ post) = Some (length pre, length pre + length digits)"
proof -
  obtain d ds where d: "digits = d # ds" using assms(2) by (cases digits) auto
  with assms(3) have dd: "isDigit d" by simp
  have tw: "takeWhile (\<lambda>c. \<not> isDigit c) (pre @ digits @ post) = pre"
    using assms(1) dd d by simp
  have tw2: "takeWhile isDigit (digits @ post) = digits"
    by (rule takeWhile_digits [OF assms(3) assms(4)])
  show ?thesis
    unfolding rxNumber_FindStringIndex_def tw Let_def using tw2 d by simp
qed

lemma lookup_placeholder:
  assumes miss: "User M (pre @ digits @ post) = None" "System M (pre @ digits @ post) = None"
    and run: "\<forall>c\<in>set pre. \<not> isDigit c" "digits \<noteq> []" "\<forall>c\<in>set digits. isDigit c"
      "post = [] \<or> \<not> isDigit (hd post)"
  shows "lookup M (pre @ digits @ post) =
          (case lookup0 M (pre @ [0x23] @ post) of
             None \<Rightarrow> None
           | Some list \<Rightarrow> Some (map (rxToNumber_ReplaceAll digits) list))"
proof -
  have loc: "rxNumber_FindStringIndex (pre @ digits @ post) = Some (length pre, length pre + length digits)"
    by (rule find_run [OF run])
  have l0: "lookup0 M (pre @ digits @ post) = None" using miss by (simp add: lookup0_def)
  have num: "take (length pre + length digits - length pre) (drop (length pre) (pre @ digits @ post)) = digits"
    by simp
  have key: "take (length pre) (pre @ digits @ post) @ [0x23] @ drop (length pre + length digits) (pre @ digits @ post)
      = pre @ [0x23] @ post"
    by simp
  show ?thesis unfolding lookup_def l0 loc option.case prod.case Let_def num key ..
qed




text \<open>What the example stores hold.\<close>

lemma ex_views:
  "User exStores [0x304B, 0x304F] = Some [[0x66F8, 0x304F, 0x3B, 0x77], [0x753B, 0x304F]]"
  "User exStores [0x304B] = Some exCands"
  "User exStores [0x304B, 0x6B] = Some exOkuriCands"
  "User exStores [0x3068, 0x3057, 0x23] = None"
  "System exStores [0x304B, 0x304F] = Some [[0x6B20, 0x304F]]"
  "System exStores [0x3068, 0x3057, 0x23] = Some [[0x5E74, 0x23, 0x30], [0x23, 0x32, 0x6B73]]"
  by (simp_all add: User_def System_def contents_def lookupMap_def elems_wf wfSlice_def exStores_def
      exMemory_def exUserMap_def exSystemMap_def exArrays_def exCands_def exOkuriCands_def)

lemma ex_slices:
  "lookup_slice exMemory [0x304B] = (Some exList, exMemory)"
  "lookup_slice exMemory [0x304B, 0x304F] = (Some exKakuList, exMemory)"
  "lookup_slice exMemory [0x304B, 0x6B] = (Some exOkuriList, exMemory)"
  "lookup_slice exMemory [0x3068, 0x3057, 0x23] = (Some exYearList, exMemory)"
  "elems exArrays exList = exCands"
  "elems exArrays exKakuList = [[0x66F8, 0x304F, 0x3B, 0x77], [0x753B, 0x304F]]"
  "elems exArrays exOkuriList = exOkuriCands"
  "elems exArrays exYearList = [[0x5E74, 0x23, 0x30], [0x23, 0x32, 0x6B73]]"
  by (simp_all add: lookup_slice_def lookup0_slice_def lookupMap_def elems_wf wfSlice_def
      exMemory_def exUserMap_def exSystemMap_def exArrays_def exCands_def exOkuriCands_def
      exList_def exOkuriList_def exKakuList_def exYearList_def)

text \<open>
  C4. \<^verbatim>\<open>lookup\<close> returns the User store's list for a reading the User store has,
  whatever the System store holds, and the System store's list on a User miss. When both
  miss and the reading has no digit, the result is not-found, which differs from a found
  empty list. When both miss and the reading is \<open>pre @ digits @ post\<close>, where
  \<open>digits\<close> is the leftmost maximal run of digits, the exact lookup (User first, then
  System) is tried again for \<open>pre\<close>, one \<^verbatim>\<open>#\<close>, \<open>post\<close>, and a miss there is
  not-found as well.
\<close>

theorem lookup_order:
  "(User M source = Some l \<longrightarrow> lookup M source = Some l)
   \<and> (User M source = None \<longrightarrow> System M source = Some l \<longrightarrow> lookup M source = Some l)
   \<and> (User M source = None \<longrightarrow> System M source = None \<longrightarrow> (\<forall>c\<in>set source. \<not> isDigit c) \<longrightarrow>
        lookup M source = None \<and> lookup M source \<noteq> Some [])
   \<and> (User M source = None \<longrightarrow> System M source = None \<longrightarrow>
        source = pre @ digits @ post \<longrightarrow> (\<forall>c\<in>set pre. \<not> isDigit c) \<longrightarrow>
        digits \<noteq> [] \<longrightarrow> (\<forall>c\<in>set digits. isDigit c) \<longrightarrow> (post = [] \<or> \<not> isDigit (hd post)) \<longrightarrow>
        lookup M source =
          (case User M (pre @ [0x23] @ post) of
             Some list \<Rightarrow> Some (map (rxToNumber_ReplaceAll digits) list)
           | None \<Rightarrow>
              (case System M (pre @ [0x23] @ post) of
                 Some list \<Rightarrow> Some (map (rxToNumber_ReplaceAll digits) list)
               | None \<Rightarrow> None)))"
proof (intro conjI impI)
  assume "User M source = Some l"
  then show "lookup M source = Some l" by (simp add: lookup_def lookup0_def)
next
  assume "User M source = None" "System M source = Some l"
  then show "lookup M source = Some l" by (simp add: lookup_def lookup0_def)
next
  assume "User M source = None" "System M source = None" "\<forall>c\<in>set source. \<not> isDigit c"
  then show "lookup M source = None" by (simp add: lookup_def lookup0_def find_none)
  then show "lookup M source \<noteq> Some []" by simp
next
  assume miss: "User M source = None" "System M source = None"
    and src: "source = pre @ digits @ post"
    and run: "\<forall>c\<in>set pre. \<not> isDigit c" "digits \<noteq> []" "\<forall>c\<in>set digits. isDigit c"
      "post = [] \<or> \<not> isDigit (hd post)"
  have "lookup M (pre @ digits @ post) =
          (case lookup0 M (pre @ [0x23] @ post) of
             None \<Rightarrow> None
           | Some list \<Rightarrow> Some (map (rxToNumber_ReplaceAll digits) list))"
    using miss run unfolding src by (rule lookup_placeholder)
  then show "lookup M source =
          (case User M (pre @ [0x23] @ post) of
             Some list \<Rightarrow> Some (map (rxToNumber_ReplaceAll digits) list)
           | None \<Rightarrow>
              (case System M (pre @ [0x23] @ post) of
                 Some list \<Rightarrow> Some (map (rxToNumber_ReplaceAll digits) list)
               | None \<Rightarrow> None))"
    unfolding src by (simp add: lookup0_def split: option.splits)
qed

theorem lookup_order_witness:
  "User exStores [0x304B, 0x304F] = Some [[0x66F8, 0x304F, 0x3B, 0x77], [0x753B, 0x304F]]
   \<and> lookup exStores [0x304B, 0x304F] = Some [[0x66F8, 0x304F, 0x3B, 0x77], [0x753B, 0x304F]]
   \<and> User exStores [0x3068, 0x3057, 0x35] = None
   \<and> System exStores [0x3068, 0x3057, 0x35] = None
   \<and> lookup exStores [0x3068, 0x3057, 0x35] = Some [[0x5E74, 0x35], [0x4E94, 0x6B73]]
   \<and> lookup exStores [0x307B, 0x3052] = None"
  using lookup_order [of exStores "[0x304B, 0x304F]" "[[0x66F8, 0x304F, 0x3B, 0x77], [0x753B, 0x304F]]"]
    lookup_order [of exStores "[0x3068, 0x3057, 0x35]" _ "[0x3068, 0x3057]" "[0x35]" "[]"]
    lookup_order [of exStores "[0x307B, 0x3052]"]
  by (simp add: User_def System_def contents_def lookupMap_def elems_wf wfSlice_def exStores_def
      exMemory_def exUserMap_def exSystemMap_def exArrays_def
      isDigit_def styleCode_def numeralStyle_def numberToKanji_def kansuji_def)

section \<open>Numeral styles\<close>

lemma replace_code: "\<not> styleCode 0x23"
  by (simp add: styleCode_def)

lemma replace_append:
  "styleCode c \<Longrightarrow>
     rxToNumber_ReplaceAll D (a @ 0x23 # c # b) =
       rxToNumber_ReplaceAll D a @ numeralStyle D c @ rxToNumber_ReplaceAll D b"
  by (induction D a rule: rxToNumber_ReplaceAll.induct) (simp_all add: replace_code)

lemma replace_none:
  "(\<forall>i. Suc i < length s \<longrightarrow> s ! i = 0x23 \<longrightarrow> \<not> styleCode (s ! Suc i)) \<Longrightarrow>
     rxToNumber_ReplaceAll D s = s"
proof (induction D s rule: rxToNumber_ReplaceAll.induct)
  case (1 number h c rest)
  from "1.prems" have first: "h = 0x23 \<longrightarrow> \<not> styleCode c" by fastforce
  have later: "\<forall>i. Suc i < length (c # rest) \<longrightarrow> (c # rest) ! i = 0x23 \<longrightarrow>
      \<not> styleCode ((c # rest) ! Suc i)"
  proof (intro allI impI)
    fix i assume "Suc i < length (c # rest)" "(c # rest) ! i = 0x23"
    then have "Suc (Suc i) < length (h # c # rest)" "(h # c # rest) ! Suc i = 0x23" by simp_all
    with "1.prems" have "\<not> styleCode ((h # c # rest) ! Suc (Suc i))" by blast
    then show "\<not> styleCode ((c # rest) ! Suc i)" by simp
  qed
  from first have no: "\<not> (h = 0x23 \<and> styleCode c)" by blast
  have "rxToNumber_ReplaceAll number (c # rest) = c # rest"
    by (rule "1.IH"(2) [OF no later])
  with first show ?case by auto
qed simp_all

lemma hanToZen_digit: "isDigit c \<Longrightarrow> hanToZen c = c + 0xFEE0"
  by (simp add: isDigit_def hanToZen_def)

lemma kansuji_digit:
  assumes "isDigit c"
  shows "kansuji c =
     [[0x3007, 0x4E00, 0x4E8C, 0x4E09, 0x56DB, 0x4E94, 0x516D, 0x4E03, 0x516B, 0x4E5D] ! (c - 0x30)]"
proof -
  from assms have "c = 0x30 \<or> c = 0x31 \<or> c = 0x32 \<or> c = 0x33 \<or> c = 0x34 \<or> c = 0x35
      \<or> c = 0x36 \<or> c = 0x37 \<or> c = 0x38 \<or> c = 0x39"
    unfolding isDigit_def by arith
  then show ?thesis
    by (elim disjE) (simp_all add: kansuji_def)
qed

lemma numberToKanji_digits:
  "\<forall>c\<in>set D. isDigit c \<Longrightarrow>
     numberToKanji D =
       map (\<lambda>c. [0x3007, 0x4E00, 0x4E8C, 0x4E09, 0x56DB, 0x4E94, 0x516D, 0x4E03, 0x516B, 0x4E5D] ! (c - 0x30)) D"
proof (induction D)
  case Nil
  show ?case by (simp add: numberToKanji_def)
next
  case (Cons d D)
  then have "isDigit d" by simp
  then have k: "kansuji d =
     [[0x3007, 0x4E00, 0x4E8C, 0x4E09, 0x56DB, 0x4E94, 0x516D, 0x4E03, 0x516B, 0x4E5D] ! (d - 0x30)]"
    by (rule kansuji_digit)
  have "numberToKanji (d # D) = kansuji d @ numberToKanji D"
    by (simp add: numberToKanji_def)
  with Cons k show ?case by simp
qed

text \<open>
  C5. A placeholder lookup for a reading whose digit run is \<open>D\<close> returns each
  candidate of the placeholder entry with its style codes replaced. Wherever a style code
  stands in a candidate, whatever comes before and behind it, \<^verbatim>\<open>#0\<close> becomes \<open>D\<close>
  itself, \<^verbatim>\<open>#1\<close> the full-width form of \<open>D\<close>, \<^verbatim>\<open>#2\<close> and \<^verbatim>\<open>#3\<close> the same
  digit-by-digit kanji form, and the other codes the pattern accepts (\<^verbatim>\<open>#4\<close>,
  \<^verbatim>\<open>#5\<close>, \<^verbatim>\<open>#9\<close>) become \<open>D\<close> itself; the text before and the text behind the
  code are treated in the same way, and a text without a style code stays as it is, a
  \<^verbatim>\<open>#\<close> with another character behind it included. The full-width form adds
  \<^verbatim>\<open>0xFEE0\<close> to each digit. The kanji form has for each digit its glyph of the table
  U+3007, U+4E00, U+4E8C, U+4E09, U+56DB, U+4E94, U+516D, U+4E03, U+516B, U+4E5D; the
  kanji form of \<^verbatim>\<open>0\<close> is the one glyph U+3007.
\<close>

theorem numeral_styles:
  assumes miss: "User M (pre @ D @ post) = None" "System M (pre @ D @ post) = None"
    and run: "\<forall>c\<in>set pre. \<not> isDigit c" "D \<noteq> []" "\<forall>c\<in>set D. isDigit c"
      "post = [] \<or> \<not> isDigit (hd post)"
    and entry: "lookup0 M (pre @ [0x23] @ post) = Some list"
  shows "lookup M (pre @ D @ post) = Some (map (rxToNumber_ReplaceAll D) list)
    \<and> rxToNumber_ReplaceAll D (a @ 0x23 # 0x30 # b) =
        rxToNumber_ReplaceAll D a @ D @ rxToNumber_ReplaceAll D b
    \<and> rxToNumber_ReplaceAll D (a @ 0x23 # 0x31 # b) =
        rxToNumber_ReplaceAll D a @ map (\<lambda>c. c + 0xFEE0) D @ rxToNumber_ReplaceAll D b
    \<and> rxToNumber_ReplaceAll D (a @ 0x23 # 0x32 # b) =
        rxToNumber_ReplaceAll D a
        @ map (\<lambda>c. [0x3007, 0x4E00, 0x4E8C, 0x4E09, 0x56DB, 0x4E94, 0x516D, 0x4E03, 0x516B, 0x4E5D] ! (c - 0x30)) D
        @ rxToNumber_ReplaceAll D b
    \<and> rxToNumber_ReplaceAll D (a @ 0x23 # 0x33 # b) = rxToNumber_ReplaceAll D (a @ 0x23 # 0x32 # b)
    \<and> rxToNumber_ReplaceAll D (a @ 0x23 # 0x34 # b) =
        rxToNumber_ReplaceAll D a @ D @ rxToNumber_ReplaceAll D b
    \<and> rxToNumber_ReplaceAll D (a @ 0x23 # 0x35 # b) =
        rxToNumber_ReplaceAll D a @ D @ rxToNumber_ReplaceAll D b
    \<and> rxToNumber_ReplaceAll D (a @ 0x23 # 0x39 # b) =
        rxToNumber_ReplaceAll D a @ D @ rxToNumber_ReplaceAll D b
    \<and> ((\<forall>i. Suc i < length s \<longrightarrow> s ! i = 0x23 \<longrightarrow> \<not> styleCode (s ! Suc i)) \<longrightarrow>
          rxToNumber_ReplaceAll D s = s)
    \<and> hanToZenString D = map (\<lambda>c. c + 0xFEE0) D
    \<and> numberToKanji D =
        map (\<lambda>c. [0x3007, 0x4E00, 0x4E8C, 0x4E09, 0x56DB, 0x4E94, 0x516D, 0x4E03, 0x516B, 0x4E5D] ! (c - 0x30)) D
    \<and> numberToKanji [0x30] = [0x3007]"
proof -
  have l: "lookup M (pre @ D @ post) = Some (map (rxToNumber_ReplaceAll D) list)"
    using lookup_placeholder [OF miss run] entry by simp
  have d: "hanToZenString D = map (\<lambda>c. c + 0xFEE0) D"
    using run(3) by (simp add: hanToZenString_def hanToZen_digit)
  have k: "numberToKanji D =
        map (\<lambda>c. [0x3007, 0x4E00, 0x4E8C, 0x4E09, 0x56DB, 0x4E94, 0x516D, 0x4E03, 0x516B, 0x4E5D] ! (c - 0x30)) D"
    using run(3) by (rule numberToKanji_digits)
  have r: "\<And>c. styleCode c \<Longrightarrow>
      rxToNumber_ReplaceAll D (a @ 0x23 # c # b) =
        rxToNumber_ReplaceAll D a @ numeralStyle D c @ rxToNumber_ReplaceAll D b"
    by (rule replace_append)
  have c0: "rxToNumber_ReplaceAll D (a @ 0x23 # 0x30 # b) =
        rxToNumber_ReplaceAll D a @ D @ rxToNumber_ReplaceAll D b"
    by (simp add: r styleCode_def numeralStyle_def)
  have c1: "rxToNumber_ReplaceAll D (a @ 0x23 # 0x31 # b) =
        rxToNumber_ReplaceAll D a @ map (\<lambda>c. c + 0xFEE0) D @ rxToNumber_ReplaceAll D b"
    by (simp add: r styleCode_def numeralStyle_def d)
  have c2: "rxToNumber_ReplaceAll D (a @ 0x23 # 0x32 # b) =
        rxToNumber_ReplaceAll D a
        @ map (\<lambda>c. [0x3007, 0x4E00, 0x4E8C, 0x4E09, 0x56DB, 0x4E94, 0x516D, 0x4E03, 0x516B, 0x4E5D] ! (c - 0x30)) D
        @ rxToNumber_ReplaceAll D b"
    by (simp add: r styleCode_def numeralStyle_def k)
  have c3: "rxToNumber_ReplaceAll D (a @ 0x23 # 0x33 # b) = rxToNumber_ReplaceAll D (a @ 0x23 # 0x32 # b)"
    by (simp add: r styleCode_def numeralStyle_def)
  have c4: "rxToNumber_ReplaceAll D (a @ 0x23 # 0x34 # b) =
        rxToNumber_ReplaceAll D a @ D @ rxToNumber_ReplaceAll D b"
    by (simp add: r styleCode_def numeralStyle_def)
  have c5: "rxToNumber_ReplaceAll D (a @ 0x23 # 0x35 # b) =
        rxToNumber_ReplaceAll D a @ D @ rxToNumber_ReplaceAll D b"
    by (simp add: r styleCode_def numeralStyle_def)
  have c9: "rxToNumber_ReplaceAll D (a @ 0x23 # 0x39 # b) =
        rxToNumber_ReplaceAll D a @ D @ rxToNumber_ReplaceAll D b"
    by (simp add: r styleCode_def numeralStyle_def)
  have n: "(\<forall>i. Suc i < length s \<longrightarrow> s ! i = 0x23 \<longrightarrow> \<not> styleCode (s ! Suc i)) \<longrightarrow>
          rxToNumber_ReplaceAll D s = s"
    using replace_none by blast
  have z: "numberToKanji [0x30] = [0x3007]"
    by (simp add: numberToKanji_def kansuji_def)
  from l c0 c1 c2 c3 c4 c5 c9 n d k z show ?thesis by blast
qed

theorem numeral_styles_witness:
  "lookup exStores [0x3068, 0x3057, 0x33, 0x34, 0x36, 0x37, 0x38, 0x39] =
     Some [[0x5E74, 0x33, 0x34, 0x36, 0x37, 0x38, 0x39],
           [0x4E09, 0x56DB, 0x516D, 0x4E03, 0x516B, 0x4E5D, 0x6B73]]
   \<and> rxToNumber_ReplaceAll [0x33, 0x34, 0x36, 0x37, 0x38, 0x39] [0x23, 0x23, 0x30] =
       [0x23, 0x33, 0x34, 0x36, 0x37, 0x38, 0x39]
   \<and> rxToNumber_ReplaceAll [0x33, 0x34, 0x36, 0x37, 0x38, 0x39] [0x23, 0x23, 0x31] =
       [0x23, 0xFF13, 0xFF14, 0xFF16, 0xFF17, 0xFF18, 0xFF19]
   \<and> rxToNumber_ReplaceAll [0x33, 0x34, 0x36, 0x37, 0x38, 0x39] [0x23, 0x23, 0x32] =
       [0x23, 0x4E09, 0x56DB, 0x516D, 0x4E03, 0x516B, 0x4E5D]
   \<and> rxToNumber_ReplaceAll [0x33, 0x34, 0x36, 0x37, 0x38, 0x39] [0x23, 0x23, 0x33] =
       [0x23, 0x4E09, 0x56DB, 0x516D, 0x4E03, 0x516B, 0x4E5D]
   \<and> rxToNumber_ReplaceAll [0x33, 0x34, 0x36, 0x37, 0x38, 0x39] [0x23, 0x23, 0x39] =
       [0x23, 0x33, 0x34, 0x36, 0x37, 0x38, 0x39]
   \<and> rxToNumber_ReplaceAll [0x33, 0x34, 0x36, 0x37, 0x38, 0x39] [0x23, 0x36, 0x23] = [0x23, 0x36, 0x23]
   \<and> numberToKanji [0x33, 0x34, 0x36, 0x37, 0x38, 0x39] = [0x4E09, 0x56DB, 0x516D, 0x4E03, 0x516B, 0x4E5D]"
proof -
  let ?D = "[0x33, 0x34, 0x36, 0x37, 0x38, 0x39] :: gostring"
  have miss: "User exStores ([0x3068, 0x3057] @ ?D @ []) = None"
    "System exStores ([0x3068, 0x3057] @ ?D @ []) = None"
    by (simp_all add: User_def System_def contents_def lookupMap_def exStores_def
        exMemory_def exUserMap_def exSystemMap_def)
  have run: "\<forall>c\<in>set [0x3068, 0x3057]. \<not> isDigit c" "?D \<noteq> []"
    "\<forall>c\<in>set ?D. isDigit c" "([]::gostring) = [] \<or> \<not> isDigit (hd [])"
    by (simp_all add: isDigit_def)
  have entry: "lookup0 exStores ([0x3068, 0x3057] @ [0x23] @ []) = Some [[0x5E74, 0x23, 0x30], [0x23, 0x32, 0x6B73]]"
    by (simp add: lookup0_def ex_views)
  have none: "\<forall>i. Suc i < length [0x23, 0x36, 0x23::nat] \<longrightarrow> [0x23, 0x36, 0x23::nat] ! i = 0x23 \<longrightarrow>
      \<not> styleCode ([0x23, 0x36, 0x23::nat] ! Suc i)"
    by (simp add: styleCode_def less_Suc_eq nth_Cons')
  note t = numeral_styles [OF miss run entry, where a = "[0x23]" and b = "[]" and s = "[0x23, 0x36, 0x23]"]
  from t none have s: "rxToNumber_ReplaceAll ?D [0x23, 0x36, 0x23] = [0x23, 0x36, 0x23]"
    by blast
  have l: "map (rxToNumber_ReplaceAll ?D) [[0x5E74, 0x23, 0x30], [0x23, 0x32, 0x6B73]] =
      [[0x5E74, 0x33, 0x34, 0x36, 0x37, 0x38, 0x39],
       [0x4E09, 0x56DB, 0x516D, 0x4E03, 0x516B, 0x4E5D, 0x6B73]]"
    by (simp add: styleCode_def numeralStyle_def numberToKanji_def kansuji_def)
  from t s l show ?thesis by simp
qed

section \<open>Saving and restoring the key bindings\<close>

lemma restore_fold:
  "foldl (\<lambda>k (i, command). BindKey k [i] command) km (zip [0 ..< length cmds] cmds) =
     (\<lambda>key. case key of [i] \<Rightarrow> if i < length cmds then cmds ! i else km key | _ \<Rightarrow> km key)"
proof (induction cmds rule: rev_induct)
  case Nil
  show ?case by (auto simp: fun_eq_iff split: list.splits)
next
  case (snoc x xs)
  have z: "zip [0 ..< length (xs @ [x])] (xs @ [x]) = zip [0 ..< length xs] xs @ [(length xs, x)]"
    by simp
  show ?case unfolding z foldl_append snoc.IH
    by (auto simp: fun_eq_iff BindKey_def nth_append split: list.splits)
qed

lemma restore_saved:
  assumes "saveMap M = Some cmds"
  shows "restoreKeyMap M km =
      (\<lambda>key. case key of [i] \<Rightarrow> if i < length cmds then cmds ! i else km key | _ \<Rightarrow> km key)"
  using assms by (simp add: restoreKeyMap_def restore_fold)

text \<open>
  C9. On a mode that has saved nothing yet, \<^verbatim>\<open>backupKeyMap\<close> records the commands of
  the 129 key codes \<^verbatim>\<open>0x00\<close> to \<^verbatim>\<open>0x80\<close> in this order; a second call, with
  whatever bindings, changes nothing, and so does every call on a mode that holds a
  snapshot. \<^verbatim>\<open>restoreKeyMap\<close> binds the key of each index to the saved command of that
  index and leaves every other key as it is; after a backup it gives the 129 keys the
  commands they had when the backup was made.
\<close>

theorem keymap_snapshot:
  assumes fresh: "saveMap M = None" and saved: "saveMap M' = Some cmds"
  shows "saveMap (backupKeyMap M km) = Some (map (\<lambda>i. km [i]) [0 ..< 129])
    \<and> backupKeyMap (backupKeyMap M km) km' = backupKeyMap M km
    \<and> backupKeyMap M' km' = M'
    \<and> (\<forall>i<length cmds. restoreKeyMap M' km' [i] = cmds ! i)
    \<and> (\<forall>key. (\<forall>i<length cmds. key \<noteq> [i]) \<longrightarrow> restoreKeyMap M' km' key = km' key)
    \<and> (\<forall>i<129. restoreKeyMap (backupKeyMap M km) km' [i] = km [i])"
proof -
  have s1: "saveMap (backupKeyMap M km) = Some (map (\<lambda>i. km [i]) [0 ..< 129])"
    using fresh by (simp add: backupKeyMap_def)
  have s2: "backupKeyMap (backupKeyMap M km) km' = backupKeyMap M km"
    by (simp add: backupKeyMap_def)
  have s3: "backupKeyMap M' km' = M'"
    using saved by (simp add: backupKeyMap_def)
  note r = restore_saved [OF saved, of km']
  have s4: "\<forall>i<length cmds. restoreKeyMap M' km' [i] = cmds ! i"
    by (simp add: r)
  have s5: "\<forall>key. (\<forall>i<length cmds. key \<noteq> [i]) \<longrightarrow> restoreKeyMap M' km' key = km' key"
    by (auto simp: r split: list.splits)
  have s6: "\<forall>i<129. restoreKeyMap (backupKeyMap M km) km' [i] = km [i]"
    by (simp add: restore_saved [OF s1])
  from s1 s2 s3 s4 s5 s6 show ?thesis by blast
qed

theorem keymap_snapshot_witness:
  "saveMap exStores = None
   \<and> saveMap (mode exLatin) = Some [None, Some (HostCommand ())]
   \<and> backupKeyMap (backupKeyMap exStores exKeys) exKanaKeys = backupKeyMap exStores exKeys
   \<and> backupKeyMap (mode exLatin) exKanaKeys = mode exLatin
   \<and> restoreKeyMap (mode exLatin) exKanaKeys [1] = Some (HostCommand ())
   \<and> restoreKeyMap (mode exLatin) exKanaKeys [0x0A] = Some (GoCommand ''SKK_KAKUTEI'')
   \<and> restoreKeyMap (backupKeyMap exStores exKeys) exKanaKeys [0x0A] = Some (HostCommand ())
   \<and> restoreKeyMap (backupKeyMap exStores exKeys) exKanaKeys [0x07] = None"
proof -
  have fresh: "saveMap exStores = None" by (simp add: exStores_def)
  have saved: "saveMap (mode exLatin) = Some [None, Some (HostCommand ())]"
    by (simp add: exLatin_def)
  note t = keymap_snapshot [OF fresh saved, of exKeys exKanaKeys]
  from t have a: "restoreKeyMap (mode exLatin) exKanaKeys [1] = [None, Some (HostCommand ())] ! 1"
    by simp
  from t have "(\<forall>i<length [None, Some (HostCommand ())]. [0x0A] \<noteq> [i]) \<longrightarrow>
      restoreKeyMap (mode exLatin) exKanaKeys [0x0A] = exKanaKeys [0x0A]"
    by blast
  then have b: "restoreKeyMap (mode exLatin) exKanaKeys [0x0A] = exKanaKeys [0x0A]"
    by (simp add: less_Suc_eq)
  from t have c: "restoreKeyMap (backupKeyMap exStores exKeys) exKanaKeys [0x0A] = exKeys [0x0A]"
    "restoreKeyMap (backupKeyMap exStores exKeys) exKanaKeys [0x07] = exKeys [0x07]"
    by simp_all
  from t fresh saved a b c show ?thesis by (simp add: exKeys_def exKanaKeys_def)
qed

section \<open>Commit and cancel without a marker\<close>

lemma seekLoop_none:
  "i < int (length cells) \<Longrightarrow> \<forall>c\<in>set (take (nat (i + 1)) cells). \<not> isMarker c
    \<Longrightarrow> seekLoop cells i = Some (- 1)"
proof (induction cells i rule: seekLoop.induct)
  case (1 cells i)
  show ?case
  proof (cases "i < 0")
    case True
    then show ?thesis by simp
  next
    case False
    with "1.prems"(1) have in_range: "nat i < length cells" by simp
    from False have "nat (i + 1) = Suc (nat i)" by simp
    with in_range have "cells ! nat i \<in> set (take (nat (i + 1)) cells)"
      by (simp add: take_Suc_conv_app_nth)
    with "1.prems"(2) have "\<not> isMarker (cells ! nat i)" by blast
    then have nm: "[cells ! nat i] \<noteq> markerWhite" "[cells ! nat i] \<noteq> markerBlack"
      by (simp_all add: isMarker_def)
    have sub: "\<forall>c\<in>set (take (nat (i - 1 + 1)) cells). \<not> isMarker c"
    proof
      fix c assume "c \<in> set (take (nat (i - 1 + 1)) cells)"
      moreover have "nat (i - 1 + 1) \<le> nat (i + 1)" by simp
      ultimately have "c \<in> set (take (nat (i + 1)) cells)"
        using set_take_subset_set_take [of "nat (i - 1 + 1)" "nat (i + 1)" cells] by blast
      with "1.prems"(2) show "\<not> isMarker c" by blast
    qed
    have "seekLoop cells (i - 1) = Some (- 1)"
      using "1.IH" [OF False _ _ _ sub] "1.prems"(1) nm False by simp
    with False "1.prems"(1) nm show ?thesis by (subst seekLoop.simps) simp
  qed
qed

text \<open>
  C10. Where no cell left of the cursor is a marker, \<^verbatim>\<open>cmdKakutei\<close> (Ctrl-J) and
  \<^verbatim>\<open>cmdCancel\<close> (Ctrl-G) return \<^verbatim>\<open>CONTINUE\<close> with the cells and the cursor of the
  buffer as they were, and with the key bindings that \<^verbatim>\<open>restoreKeyMap\<close> gives, which is
  what \<^verbatim>\<open>cmdLatinMode\<close> does; the keys of the saved snapshot are bound to the saved
  commands again.
\<close>

theorem latin_fallback:
  assumes cur: "0 \<le> Cursor (buf st)" "Cursor (buf st) \<le> int (length (Buffer (buf st)))"
    and nomark: "\<forall>c\<in>set (take (nat (Cursor (buf st))) (Buffer (buf st))). \<not> isMarker c"
    and saved: "saveMap (mode st) = Some cmds"
  shows "cmdKakutei st ks =
           Return CONTINUE (st\<lparr>buf := (buf st)\<lparr>KeyMap := restoreKeyMap (mode st) (KeyMap (buf st))\<rparr>\<rparr>) ks
    \<and> cmdCancel st ks =
           Return CONTINUE (st\<lparr>buf := (buf st)\<lparr>KeyMap := restoreKeyMap (mode st) (KeyMap (buf st))\<rparr>\<rparr>) ks
    \<and> cmdKakutei st ks = cmdLatinMode st ks
    \<and> cmdCancel st ks = cmdLatinMode st ks
    \<and> Buffer ((buf st)\<lparr>KeyMap := restoreKeyMap (mode st) (KeyMap (buf st))\<rparr>) = Buffer (buf st)
    \<and> Cursor ((buf st)\<lparr>KeyMap := restoreKeyMap (mode st) (KeyMap (buf st))\<rparr>) = Cursor (buf st)
    \<and> (\<forall>i<length cmds. restoreKeyMap (mode st) (KeyMap (buf st)) [i] = cmds ! i)"
proof -
  have "seekLoop (Buffer (buf st)) (Cursor (buf st) - 1) = Some (- 1)"
    using cur nomark by (intro seekLoop_none) simp_all
  then have sm: "seekMarker (buf st) = Some (- 1)" by (simp add: seekMarker_def)
  have r: "\<forall>i<length cmds. restoreKeyMap (mode st) (KeyMap (buf st)) [i] = cmds ! i"
    by (simp add: restore_saved [OF saved])
  show ?thesis using r by (simp add: cmdKakutei_def cmdCancel_def cmdLatinMode_def sm)
qed

theorem latin_fallback_witness:
  "cmdKakutei exLatin [] =
     Return CONTINUE
       (exLatin\<lparr>buf := \<lparr>Buffer = [0x61, 0x62, 0x25BD], Cursor = 2,
                        KeyMap = restoreKeyMap (mode exLatin) exKanaKeys\<rparr>\<rparr>) []
   \<and> cmdCancel exLatin [] =
     Return CONTINUE
       (exLatin\<lparr>buf := \<lparr>Buffer = [0x61, 0x62, 0x25BD], Cursor = 2,
                        KeyMap = restoreKeyMap (mode exLatin) exKanaKeys\<rparr>\<rparr>) []
   \<and> restoreKeyMap (mode exLatin) exKanaKeys [1] = Some (HostCommand ())"
proof -
  have cur: "0 \<le> Cursor (buf exLatin)" "Cursor (buf exLatin) \<le> int (length (Buffer (buf exLatin)))"
    by (simp_all add: exLatin_def)
  have nomark: "\<forall>c\<in>set (take (nat (Cursor (buf exLatin))) (Buffer (buf exLatin))). \<not> isMarker c"
    by (simp add: exLatin_def isMarker_def markerWhite_def markerBlack_def take_Suc_Cons numeral_2_eq_2)
  have saved: "saveMap (mode exLatin) = Some [None, Some (HostCommand ())]"
    by (simp add: exLatin_def)
  note t = latin_fallback [OF cur nomark saved, of "[]"]
  from t have a: "restoreKeyMap (mode exLatin) (KeyMap (buf exLatin)) [1] = [None, Some (HostCommand ())] ! 1"
    by simp
  have k: "KeyMap (buf exLatin) = exKanaKeys" "Buffer (buf exLatin) = [0x61, 0x62, 0x25BD]"
    "Cursor (buf exLatin) = 2"
    by (simp_all add: exLatin_def)
  have b: "(buf exLatin)\<lparr>KeyMap := restoreKeyMap (mode exLatin) exKanaKeys\<rparr> =
      \<lparr>Buffer = [0x61, 0x62, 0x25BD], Cursor = 2, KeyMap = restoreKeyMap (mode exLatin) exKanaKeys\<rparr>"
    by (simp add: exLatin_def)
  from t a show ?thesis unfolding k b by simp
qed

section \<open>Buffer and store primitives\<close>

lemma butlast_copyDown: "pos < length xs \<Longrightarrow> butlast (copyDown xs pos) = take pos xs @ drop (Suc pos) xs"
proof -
  have "copyDown xs pos = (take pos xs @ drop (Suc pos) xs) @ [last xs]"
    by (simp add: copyDown_def)
  then show ?thesis by (simp only: butlast_snoc)
qed

lemma removeOne_at:
  assumes "Buffer b = pre @ m # rest" "pos = int (length pre)"
  shows "removeOne b pos = Some (b\<lparr>Buffer := pre @ rest, Cursor := Cursor b - 1\<rparr>)"
proof -
  have r: "nat pos < length (Buffer b)" "0 \<le> pos" "pos < int (length (Buffer b))"
    using assms by simp_all
  have "butlast (copyDown (pre @ m # rest) (length pre)) =
      take (length pre) (pre @ m # rest) @ drop (Suc (length pre)) (pre @ m # rest)"
    by (rule butlast_copyDown) simp
  then have "butlast (copyDown (Buffer b) (nat pos)) = pre @ rest"
    using assms by simp
  with r show ?thesis by (simp add: removeOne_def)
qed

lemma seekLoop_found:
  assumes "isMarker m" "markerFree t" "k \<le> length t"
  shows "seekLoop (pre @ m # t @ post) (int (length pre + k)) = Some (int (length pre))"
  using assms(3)
proof (induction k)
  case 0
  have "(pre @ m # t @ post) ! length pre = m" by simp
  with assms(1) show ?case
    by (subst seekLoop.simps) (simp add: isMarker_def)
next
  case (Suc k)
  then have k: "k < length t" by simp
  have cell: "(pre @ m # t @ post) ! (length pre + Suc k) = t ! k"
    using k by (simp add: nth_append)
  from k assms(2) have "\<not> isMarker (t ! k)" by (simp add: markerFree_def)
  then have nm: "[t ! k] \<noteq> markerWhite" "[t ! k] \<noteq> markerBlack"
    by (simp_all add: isMarker_def)
  have n: "nat (int (length pre + Suc k)) = length pre + Suc k" by simp
  have range: "\<not> int (length pre + Suc k) < 0"
    "\<not> int (length (pre @ m # t @ post)) \<le> int (length pre + Suc k)"
    using k by simp_all
  have prev: "int (length pre + Suc k) - 1 = int (length pre + k)" by simp
  have "seekLoop (pre @ m # t @ post) (int (length pre + Suc k)) =
      seekLoop (pre @ m # t @ post) (int (length pre + k))"
    by (subst seekLoop.simps) (simp only: range n cell nm prev if_False simp_thms)
  with Suc.IH k show ?case by simp
qed

lemma seekMarker_found:
  assumes "Buffer b = pre @ m # t @ post" "isMarker m" "markerFree t"
    "Cursor b = int (length pre + Suc (length t))"
  shows "seekMarker b = Some (int (length pre))"
proof -
  have "Cursor b - 1 = int (length pre + length t)" using assms(4) by simp
  then show ?thesis
    unfolding seekMarker_def assms(1)
    using seekLoop_found [OF assms(2) assms(3), of "length t" pre post] by simp
qed

lemma cands_simps [simp]:
  "cands (st\<lparr>buf := b\<rparr>) list = cands st list"
  "cands (st\<lparr>replies := r\<rparr>) list = cands st list"
  by (simp_all add: cands_def)

lemma setHeap_same [simp]: "setHeap st (heap (mode st)) = st"
  by (simp add: setHeap_def)

lemma mapStore_simps [simp]:
  "mapStore None key v = None"
  "mapStore (Some mp) key v = Some (Some (mp(key \<mapsto> v)))"
  by (simp_all add: mapStore_def)

text \<open>
  \<^verbatim>\<open>newCandidate\<close>, case by case. \<open>m1\<close> is the memory as the nested session leaves
  it and \<open>L\<close> the list that \<^verbatim>\<open>lookup\<close> finds for the reading then.
\<close>

lemma newCandidate_none: "replies st = [] \<Longrightarrow> newCandidate st source = NoAnswer"
  by (simp add: newCandidate_def)





lemma strLess_Nil [simp]: "\<not> strLess s []"
  by (cases s) simp_all


lemma purge_key: "str ''X'' \<noteq> CtrlG" "\<not> strLess (str ''X'') (str '' '')" "str ''X'' \<noteq> str '' ''"
  "str ''X'' \<noteq> str ''x''"
  by (simp_all add: str_def CtrlG_def)


section \<open>Control keys in the Selecting state\<close>

text \<open>
  C1, as stated, fails. With the first candidate shown, the Enter key (a control
  character other than Ctrl-G) removes the marker and the command returns \<^verbatim>\<open>CONTINUE\<close>.
  The key is not handed to \<^verbatim>\<open>eval\<close>: a host that ends the line on Enter would
  return \<^verbatim>\<open>ENTER\<close> from the committed state, and the command does not.
\<close>

theorem control_key_redispatch_counterexample:
  "selectLoop 0 [0x304B] [] exList exSelecting 0 [([0x0D], False)] = Return CONTINUE exCommitted []
   \<and> eval exDispatch (selectLoop 0 [0x304B] [] exList exSelecting 0 [([0x0D], False)])
       \<noteq> exDispatch [0x0D] exCommitted []"
  by (simp add: exSelecting_def exCommitted_def exDispatch_def eval_def CtrlG_def str_def
      removeOne_def copyDown_def)

text \<open>
  C1, amended. In the Selecting state, with the buffer holding the black marker and the
  shown text between \<open>pre\<close> and \<open>post\<close>, let the key start with a control character
  \<open>c\<close>, that is a code point below U+0020 or one from U+007F to U+009F, and let it
  not be Ctrl-G. The controller removes the marker cell, so that the shown text stays,
  and moves the cursor one cell back. For \<open>c\<close> below U+0020 it then returns
  \<^verbatim>\<open>CONTINUE\<close> with the remaining keys: the key is consumed and no command of the host
  runs for it, whatever the host binds. For \<open>c\<close> from U+007F to U+009F the key is not
  below the space in string order, and the controller ends with the call of \<^verbatim>\<open>eval\<close>
  for that key on the committed buffer, so that the command the host binds to it runs.
\<close>

theorem control_key_commits:
  assumes ctl: "c < 0x20 \<or> (0x7F \<le> c \<and> c \<le> 0x9F)" "c # esc \<noteq> CtrlG"
    and disp: "Buffer (buf st) = pre @ markerBlack @ shown @ post" "markerPos = int (length pre)"
    and commit: "st' = st\<lparr>buf := (buf st)\<lparr>Buffer := pre @ shown @ post, Cursor := Cursor (buf st) - 1\<rparr>\<rparr>"
  shows "selectLoop markerPos source postfix list st current ((c # esc, err) # ks) =
           (if c < 0x20 then Return CONTINUE st' ks else Eval (c # esc) st' ks)
    \<and> eval host (selectLoop markerPos source postfix list st current ((c # esc, err) # ks)) =
           (if c < 0x20 then Return CONTINUE st' ks else host (c # esc) st' ks)"
proof -
  have "Buffer (buf st) = pre @ 0x25BC # (shown @ post)"
    using disp(1) by (simp add: markerBlack_def)
  then have ro: "removeOne (buf st) markerPos =
      Some ((buf st)\<lparr>Buffer := pre @ (shown @ post), Cursor := Cursor (buf st) - 1\<rparr>)"
    using disp(2) by (rule removeOne_at)
  have less: "strLess (c # esc) (str '' '') \<longleftrightarrow> c < 0x20"
    by (simp add: str_def)
  have other: "\<not> c < 0x20 \<Longrightarrow> c # esc \<noteq> str '' '' \<and> c # esc \<noteq> str ''x'' \<and> c # esc \<noteq> str ''X''"
    using ctl(1) by (auto simp: str_def)
  have sel: "selectLoop markerPos source postfix list st current ((c # esc, err) # ks) =
           (if c < 0x20 then Return CONTINUE st' ks else Eval (c # esc) st' ks)"
    using ctl(2) other by (simp add: less ro commit)
  then show ?thesis by (simp add: eval_def)
qed

theorem control_key_commits_witness:
  "selectLoop 0 [0x304B] [] exList exSelecting 0 [([0x0D], False)] = Return CONTINUE exCommitted []
   \<and> eval exDispatch (selectLoop 0 [0x304B] [] exList exSelecting 0 [([0x0D], False)]) =
       Return CONTINUE exCommitted []
   \<and> selectLoop 0 [0x304B] [] exList exSelecting 0 [([0x7F], False)] = Eval [0x7F] exCommitted []
   \<and> eval exDispatch (selectLoop 0 [0x304B] [] exList exSelecting 0 [([0x7F], False)]) =
       Return CONTINUE (exCommitted\<lparr>buf := \<lparr>Buffer = [0x868A, 0x7F], Cursor = 2, KeyMap = exKeys\<rparr>\<rparr>) []"
proof -
  have ctl: "(0x0D::nat) < 0x20 \<or> (0x7F \<le> (0x0D::nat) \<and> (0x0D::nat) \<le> 0x9F)" "[0x0D] \<noteq> CtrlG"
    "(0x7F::nat) < 0x20 \<or> (0x7F \<le> (0x7F::nat) \<and> (0x7F::nat) \<le> 0x9F)" "[0x7F] \<noteq> CtrlG"
    by (simp_all add: CtrlG_def)
  have disp: "Buffer (buf exSelecting) = [] @ markerBlack @ [0x868A] @ []" "(0::int) = int (length ([]::gostring))"
    by (simp_all add: exSelecting_def markerBlack_def)
  have c: "exCommitted = exSelecting\<lparr>buf := (buf exSelecting)\<lparr>Buffer := [] @ [0x868A] @ [],
      Cursor := Cursor (buf exSelecting) - 1\<rparr>\<rparr>"
    by (simp add: exSelecting_def exCommitted_def)
  have d: "exDispatch [0x7F] exCommitted [] =
      Return CONTINUE (exCommitted\<lparr>buf := \<lparr>Buffer = [0x868A, 0x7F], Cursor = 2, KeyMap = exKeys\<rparr>\<rparr>) []"
    by (simp add: exDispatch_def exCommitted_def InsertAndRepaint_def)
  show ?thesis
    using control_key_commits [OF ctl(1,2) disp c, of "[0x304B]" "[]" exList 0 False "[]" exDispatch]
      control_key_commits [OF ctl(3,4) disp c, of "[0x304B]" "[]" exList 0 False "[]" exDispatch]
    by (simp add: d eval_def del: selectLoop.simps)
qed

section \<open>Purging a candidate\<close>

lemma idx_cands: "0 \<le> current \<Longrightarrow> current < int (len list) \<Longrightarrow>
    idx (cands st list) current = Some (cands st list ! nat current)"
  by (simp add: idx_def cands_def)

lemma purge_step:
  assumes cur: "0 \<le> current" "current < int (len list)"
    and rep: "replies st = (ans, aerr, nested) # rest"
  shows "selectLoop markerPos source postfix list st current ((str ''X'', err) # ks) =
      (if \<not> aerr \<and> (ans = str ''y'' \<or> ans = str ''yes'') then
         (if len list \<le> 1 then
            Return CONTINUE
              (st\<lparr>mode := (mode st)\<lparr>heap := (heap (mode st))
                        \<lparr>userMap := mapDelete (userMap (heap (mode st))) source\<rparr>\<rparr>,
                  buf := ReplaceAndRepaint (buf st) markerPos [],
                  replies := rest\<rparr>) ks
          else
            (case mapStore (userMap (heap (mode st))) source (sliceTo list (len list - 1)) of
               None \<Rightarrow> Crash
             | Some um \<Rightarrow>
                Return CONTINUE
                  (st\<lparr>mode := (mode st)\<lparr>heap := (heap (mode st))
                         \<lparr>userMap := um,
                          arrays := (if int (nat current) + 1 < int (len list)
                                     then go_copy (arrays (heap (mode st))) (sliceFrom list (nat current))
                                            (sliceFrom list (nat current + 1))
                                     else arrays (heap (mode st)))\<rparr>\<rparr>,
                      buf := ReplaceAndRepaint (buf st) markerPos [],
                      replies := rest\<rparr>) ks))
       else selectLoop markerPos source postfix list (st\<lparr>replies := rest\<rparr>) current ks)"
proof -
  have n: "int (nat current) = current" using cur by simp
  show ?thesis
    unfolding n by (simp add: purge_key idx_cands [OF cur] rep Let_def del: mapStore_simps)
qed

text \<open>
  C6. In the Selecting state the key \<^verbatim>\<open>X\<close> asks for confirmation; \<open>L\<close> is the
  candidate list. When the prompt returns without error the answer \<^verbatim>\<open>y\<close> or
  \<^verbatim>\<open>yes\<close>, the list has more than one candidate and the User map has been made, the
  User store gets for the reading the list without the candidate at \<^verbatim>\<open>current\<close>, the
  others in their order, and the region is emptied. The removal is made in the array of
  the list: the User map gets the slice of the list shortened by one, every other entry
  of the two maps keeps its slice, no other array changes, and the array of the list
  holds the remaining candidates followed by the last candidate once more, which is what
  an entry of the System map reads that shares the array. With a User map that is
  \<^verbatim>\<open>nil\<close> the assignment panics. When the list has one candidate, the reading is
  deleted from the User store, the System store stays as it is, and the region is
  emptied. After any other answer, or an error of the prompt, the loop goes on with the
  same list, the same \<^verbatim>\<open>current\<close>, the same buffer and the same memory.
\<close>

theorem purge_confirmation:
  assumes cur: "0 \<le> current" "current < int (len list)"
    and wf: "wfSlice (arrays (heap (mode st))) list"
    and rep: "replies st = (ans, aerr, nested) # rest"
    and L: "L = cands st list"
  shows "(\<not> aerr \<and> (ans = str ''y'' \<or> ans = str ''yes'') \<and> 2 \<le> len list
            \<and> userMap (heap (mode st)) = Some um \<longrightarrow>
           (\<exists>st'. selectLoop markerPos source postfix list st current ((str ''X'', err) # ks) =
                     Return CONTINUE st' ks
              \<and> User (mode st') source = Some (take (nat current) L @ drop (Suc (nat current)) L)
              \<and> userMap (heap (mode st')) = Some (um(source \<mapsto> sliceTo list (len list - 1)))
              \<and> systemMap (heap (mode st')) = systemMap (heap (mode st))
              \<and> (\<forall>a. a \<noteq> arr list \<longrightarrow> arrays (heap (mode st')) a = arrays (heap (mode st)) a)
              \<and> cands st' list = take (nat current) L @ drop (Suc (nat current)) L @ [last L]
              \<and> buf st' = ReplaceAndRepaint (buf st) markerPos []
              \<and> replies st' = rest))
    \<and> (\<not> aerr \<and> (ans = str ''y'' \<or> ans = str ''yes'') \<and> 2 \<le> len list
            \<and> userMap (heap (mode st)) = None \<longrightarrow>
           selectLoop markerPos source postfix list st current ((str ''X'', err) # ks) = Crash)
    \<and> (\<not> aerr \<and> (ans = str ''y'' \<or> ans = str ''yes'') \<and> len list = 1 \<longrightarrow>
           (\<exists>st'. selectLoop markerPos source postfix list st current ((str ''X'', err) # ks) =
                     Return CONTINUE st' ks
              \<and> User (mode st') = (User (mode st))(source := None)
              \<and> System (mode st') = System (mode st)
              \<and> arrays (heap (mode st')) = arrays (heap (mode st))
              \<and> buf st' = ReplaceAndRepaint (buf st) markerPos []
              \<and> replies st' = rest))
    \<and> (aerr \<or> (ans \<noteq> str ''y'' \<and> ans \<noteq> str ''yes'') \<longrightarrow>
           selectLoop markerPos source postfix list st current ((str ''X'', err) # ks) =
             selectLoop markerPos source postfix list (st\<lparr>replies := rest\<rparr>) current ks)"
proof -
  note step = purge_step [OF cur rep, of markerPos source postfix err ks]
  let ?m = "heap (mode st)"
  let ?A1 = "if int (nat current) + 1 < int (len list)
             then go_copy (arrays ?m) (sliceFrom list (nat current)) (sliceFrom list (nat current + 1))
             else arrays ?m"
  have c: "nat current < len list" using cur by simp
  note p = purge_elems [OF wf c refl]
  have Le: "elems (arrays ?m) list = L" by (simp add: L cands_def)
  have a: "\<not> aerr \<and> (ans = str ''y'' \<or> ans = str ''yes'') \<and> 2 \<le> len list
            \<and> userMap ?m = Some um \<longrightarrow>
           (\<exists>st'. selectLoop markerPos source postfix list st current ((str ''X'', err) # ks) =
                     Return CONTINUE st' ks
              \<and> User (mode st') source = Some (take (nat current) L @ drop (Suc (nat current)) L)
              \<and> userMap (heap (mode st')) = Some (um(source \<mapsto> sliceTo list (len list - 1)))
              \<and> systemMap (heap (mode st')) = systemMap ?m
              \<and> (\<forall>a. a \<noteq> arr list \<longrightarrow> arrays (heap (mode st')) a = arrays ?m a)
              \<and> cands st' list = take (nat current) L @ drop (Suc (nat current)) L @ [last L]
              \<and> buf st' = ReplaceAndRepaint (buf st) markerPos []
              \<and> replies st' = rest)"
  proof
    assume h: "\<not> aerr \<and> (ans = str ''y'' \<or> ans = str ''yes'') \<and> 2 \<le> len list
            \<and> userMap ?m = Some um"
    let ?st = "st\<lparr>mode := (mode st)\<lparr>heap := ?m
                         \<lparr>userMap := Some (um(source \<mapsto> sliceTo list (len list - 1))),
                          arrays := ?A1\<rparr>\<rparr>,
                  buf := ReplaceAndRepaint (buf st) markerPos [],
                  replies := rest\<rparr>"
    have r: "selectLoop markerPos source postfix list st current ((str ''X'', err) # ks) =
        Return CONTINUE ?st ks"
      unfolding step using h by simp
    have u: "User (mode ?st) source = Some (take (nat current) L @ drop (Suc (nat current)) L)"
      using p(1) by (simp add: User_def contents_def lookupMap_def Le)
    have k: "cands ?st list = take (nat current) L @ drop (Suc (nat current)) L @ [last L]"
      using p(2) by (simp add: cands_def Le)
    have f: "\<forall>a. a \<noteq> arr list \<longrightarrow> arrays (heap (mode ?st)) a = arrays ?m a"
      using p(3) by simp
    from r u k f show "\<exists>st'. selectLoop markerPos source postfix list st current ((str ''X'', err) # ks) =
                     Return CONTINUE st' ks
              \<and> User (mode st') source = Some (take (nat current) L @ drop (Suc (nat current)) L)
              \<and> userMap (heap (mode st')) = Some (um(source \<mapsto> sliceTo list (len list - 1)))
              \<and> systemMap (heap (mode st')) = systemMap ?m
              \<and> (\<forall>a. a \<noteq> arr list \<longrightarrow> arrays (heap (mode st')) a = arrays ?m a)
              \<and> cands st' list = take (nat current) L @ drop (Suc (nat current)) L @ [last L]
              \<and> buf st' = ReplaceAndRepaint (buf st) markerPos []
              \<and> replies st' = rest"
      by (intro exI [of _ ?st]) simp
  qed
  have b: "\<not> aerr \<and> (ans = str ''y'' \<or> ans = str ''yes'') \<and> 2 \<le> len list
            \<and> userMap ?m = None \<longrightarrow>
           selectLoop markerPos source postfix list st current ((str ''X'', err) # ks) = Crash"
    unfolding step by simp
  have d: "\<not> aerr \<and> (ans = str ''y'' \<or> ans = str ''yes'') \<and> len list = 1 \<longrightarrow>
           (\<exists>st'. selectLoop markerPos source postfix list st current ((str ''X'', err) # ks) =
                     Return CONTINUE st' ks
              \<and> User (mode st') = (User (mode st))(source := None)
              \<and> System (mode st') = System (mode st)
              \<and> arrays (heap (mode st')) = arrays ?m
              \<and> buf st' = ReplaceAndRepaint (buf st) markerPos []
              \<and> replies st' = rest)"
  proof
    assume h: "\<not> aerr \<and> (ans = str ''y'' \<or> ans = str ''yes'') \<and> len list = 1"
    let ?st = "st\<lparr>mode := (mode st)\<lparr>heap := ?m\<lparr>userMap := mapDelete (userMap ?m) source\<rparr>\<rparr>,
                  buf := ReplaceAndRepaint (buf st) markerPos [],
                  replies := rest\<rparr>"
    have r: "selectLoop markerPos source postfix list st current ((str ''X'', err) # ks) =
        Return CONTINUE ?st ks"
      unfolding step using h by simp
    have u: "User (mode ?st) = (User (mode st))(source := None)"
      by (cases "userMap ?m")
        (auto simp: User_def contents_def lookupMap_def mapDelete_def fun_eq_iff)
    have s: "System (mode ?st) = System (mode st)"
      by (simp add: System_def)
    from r u s show "\<exists>st'. selectLoop markerPos source postfix list st current ((str ''X'', err) # ks) =
                     Return CONTINUE st' ks
              \<and> User (mode st') = (User (mode st))(source := None)
              \<and> System (mode st') = System (mode st)
              \<and> arrays (heap (mode st')) = arrays ?m
              \<and> buf st' = ReplaceAndRepaint (buf st) markerPos []
              \<and> replies st' = rest"
      by (intro exI [of _ ?st]) simp
  qed
  have e: "aerr \<or> (ans \<noteq> str ''y'' \<and> ans \<noteq> str ''yes'') \<longrightarrow>
           selectLoop markerPos source postfix list st current ((str ''X'', err) # ks) =
             selectLoop markerPos source postfix list (st\<lparr>replies := rest\<rparr>) current ks"
    unfolding step by auto
  from a b d e show ?thesis by blast
qed

theorem purge_confirmation_witness:
  "(\<exists>st'. selectLoop 0 [0x3068, 0x3057, 0x23] [] exYearList
             (exYear\<lparr>replies := [(str ''y'', False, id)]\<rparr>) 0 [(str ''X'', False)] =
           Return CONTINUE st' []
      \<and> User (mode st') [0x3068, 0x3057, 0x23] = Some [[0x23, 0x32, 0x6B73]]
      \<and> System (mode st') [0x3068, 0x3057, 0x23] = Some [[0x23, 0x32, 0x6B73], [0x23, 0x32, 0x6B73]]
      \<and> Buffer (buf st') = [])
   \<and> (\<exists>st'. selectLoop 0 [0x304B] [] exList
             (exSelecting\<lparr>replies := [(str ''yes'', False, id)]\<rparr>) 1 [(str ''X'', False)] =
           Return CONTINUE st' []
      \<and> User (mode st') [0x304B] = Some [[0x868A], [0x8AB2], [0x79D1], [0x706B]])
   \<and> selectLoop 0 [0x304B] [] exList
             (exSelecting\<lparr>mode := exNilUser, replies := [(str ''yes'', False, id)]\<rparr>) 1
             [(str ''X'', False)] = Crash
   \<and> selectLoop 0 [0x304B] [] exList (exSelecting\<lparr>replies := [(str ''Y'', False, id)]\<rparr>) 1
       [(str ''X'', False)] =
     Blocked exSelecting (Selecting 1)"
proof -
  let ?year = "[0x3068, 0x3057, 0x23] :: gostring"
  let ?sy = "exYear\<lparr>replies := [(str ''y'', False, id)]\<rparr>"
  let ?ss = "exSelecting\<lparr>replies := [(str ''yes'', False, id)]\<rparr>"
  let ?sn = "exSelecting\<lparr>mode := exNilUser, replies := [(str ''yes'', False, id)]\<rparr>"
  let ?so = "exSelecting\<lparr>replies := [(str ''Y'', False, id)]\<rparr>"
  have no: "str ''Y'' \<noteq> str ''y''" "str ''Y'' \<noteq> str ''yes''" "str ''yes'' \<noteq> str ''y''"
    by (simp_all add: str_def)
  have hy: "heap (mode ?sy) = exMemory" "heap (mode ?ss) = exMemory" "heap (mode ?so) = exMemory"
    "heap (mode ?sn) = exMemory\<lparr>userMap := None\<rparr>"
    "heap (mode exYear) = exMemory" "heap (mode exSelecting) = exMemory"
    "heap exNilUser = exMemory\<lparr>userMap := None\<rparr>"
    by (simp_all add: exYear_def exSelecting_def exStores_def exNilUser_def)
  have um: "userMap exMemory = Some exUserMap" "systemMap exMemory = Some exSystemMap"
    "arrays exMemory = exArrays"
    by (simp_all add: exMemory_def)
  have L: "[[0x5E74, 0x23, 0x30], [0x23, 0x32, 0x6B73]] = cands ?sy exYearList"
    "exCands = cands ?ss exList" "exCands = cands ?sn exList" "exCands = cands ?so exList"
    by (simp_all add: cands_def hy um ex_slices)
  have wf: "wfSlice (arrays (heap (mode ?sy))) exYearList" "wfSlice (arrays (heap (mode ?ss))) exList"
    "wfSlice (arrays (heap (mode ?sn))) exList" "wfSlice (arrays (heap (mode ?so))) exList"
    by (simp_all add: hy um wfSlice_def exYearList_def exList_def exArrays_def exCands_def)
  have cur0: "(0::int) \<le> 0" "0 < int (len exYearList)" by (simp_all add: exYearList_def)
  have cur1: "(0::int) \<le> 1" "1 < int (len exList)" by (simp_all add: exList_def)
  have rep: "replies ?sy = (str ''y'', False, id) # []" "replies ?ss = (str ''yes'', False, id) # []"
    "replies ?sn = (str ''yes'', False, id) # []" "replies ?so = (str ''Y'', False, id) # []"
    by simp_all
  note ty = purge_confirmation [OF cur0 wf(1) rep(1) L(1), where um = exUserMap and markerPos = 0
      and source = ?year and postfix = "[]" and err = False and ks = "[]"]
  note ts = purge_confirmation [OF cur1 wf(2) rep(2) L(2), where um = exUserMap and markerPos = 0
      and source = "[0x304B]" and postfix = "[]" and err = False and ks = "[]"]
  note tn = purge_confirmation [OF cur1 wf(3) rep(3) L(3), where um = exUserMap and markerPos = 0
      and source = "[0x304B]" and postfix = "[]" and err = False and ks = "[]"]
  note to = purge_confirmation [OF cur1 wf(4) rep(4) L(4), where um = exUserMap and markerPos = 0
      and source = "[0x304B]" and postfix = "[]" and err = False and ks = "[]"]
  from ty obtain st' where y:
      "selectLoop 0 ?year [] exYearList ?sy 0 [(str ''X'', False)] = Return CONTINUE st' []"
      "User (mode st') ?year = Some [[0x23, 0x32, 0x6B73]]"
      "systemMap (heap (mode st')) = systemMap (heap (mode ?sy))"
      "cands st' exYearList = [[0x23, 0x32, 0x6B73], [0x23, 0x32, 0x6B73]]"
      "buf st' = ReplaceAndRepaint (buf ?sy) 0 []"
    by (auto simp: hy um exYearList_def simp del: selectLoop.simps)
  have ysys: "System (mode st') ?year = Some [[0x23, 0x32, 0x6B73], [0x23, 0x32, 0x6B73]]"
    using y(4) unfolding System_def contents_def y(3) hy um cands_def
    by (simp add: lookupMap_def exSystemMap_def exYearList_def)
  have ybuf: "Buffer (buf st') = []"
    unfolding y(5) by (simp add: ReplaceAndRepaint_def exYear_def)
  from y(1,2) ysys ybuf have a: "\<exists>st'. selectLoop 0 ?year [] exYearList ?sy 0 [(str ''X'', False)] =
           Return CONTINUE st' []
      \<and> User (mode st') ?year = Some [[0x23, 0x32, 0x6B73]]
      \<and> System (mode st') ?year = Some [[0x23, 0x32, 0x6B73], [0x23, 0x32, 0x6B73]]
      \<and> Buffer (buf st') = []"
    by blast
  from ts have b: "\<exists>st'. selectLoop 0 [0x304B] [] exList ?ss 1 [(str ''X'', False)] =
           Return CONTINUE st' []
      \<and> User (mode st') [0x304B] = Some [[0x868A], [0x8AB2], [0x79D1], [0x706B]]"
    by (auto simp: hy um exList_def exCands_def simp del: selectLoop.simps)
  from tn have c: "selectLoop 0 [0x304B] [] exList ?sn 1 [(str ''X'', False)] = Crash"
    by (simp add: hy exList_def del: selectLoop.simps)
  have r: "exSelecting\<lparr>replies := []\<rparr> = exSelecting" by (simp add: exSelecting_def)
  from to have d: "selectLoop 0 [0x304B] [] exList ?so 1 [(str ''X'', False)] =
      Blocked exSelecting (Selecting 1)"
    by (simp add: no r del: selectLoop.simps(2))
  from a b c d show ?thesis by blast
qed

section \<open>Registering a new word\<close>






section \<open>The advance key\<close>

lemma ex_start:
  "cmdStartHenkan exComposing ks =
     selectLoop 0 [0x304B] [] exList
       (exComposing\<lparr>buf := \<lparr>Buffer = [0x25BC, 0x868A], Cursor = 2, KeyMap = exKeys\<rparr>\<rparr>) 0 ks"
  "cmdStartHenkan exKaku ks =
     selectLoop 0 [0x304B, 0x304F] [] exKakuList
       (exKaku\<lparr>buf := \<lparr>Buffer = [0x25BC, 0x66F8, 0x304F], Cursor = 3, KeyMap = exKeys\<rparr>\<rparr>) 0 ks"
proof -
  have b: "Buffer (buf exComposing) = [] @ 0x25BD # [0x304B] @ []"
    "Cursor (buf exComposing) = int (length ([]::gostring) + Suc (length [0x304B::nat]))"
    "Buffer (buf exKaku) = [] @ 0x25BD # [0x304B, 0x304F] @ []"
    "Cursor (buf exKaku) = int (length ([]::gostring) + Suc (length [0x304B::nat, 0x304F]))"
    by (simp_all add: exComposing_def exKaku_def)
  have m: "isMarker 0x25BD" "markerFree [0x304B]" "markerFree [0x304B, 0x304F]"
    by (simp_all add: isMarker_def markerFree_def markerWhite_def markerBlack_def)
  have s: "seekMarker (buf exComposing) = Some 0" "seekMarker (buf exKaku) = Some 0"
    using seekMarker_found [OF b(1) m(1,2) b(2)] seekMarker_found [OF b(3) m(1,3) b(4)] by simp_all
  have sub: "SubString (buf exComposing) 1 (Cursor (buf exComposing)) = [0x304B]"
    "SubString (buf exKaku) 1 (Cursor (buf exKaku)) = [0x304B, 0x304F]"
    by (simp_all add: exComposing_def exKaku_def SubString_def)
  have h: "heap (mode exComposing) = exMemory" "heap (mode exKaku) = exMemory"
    by (simp_all add: exComposing_def exKaku_def exStores_def)
  have c: "cands exComposing exList = exCands"
    "cands exKaku exKakuList = [[0x66F8, 0x304F, 0x3B, 0x77], [0x753B, 0x304F]]"
    by (simp_all add: cands_def h exMemory_def ex_slices)
  have sh: "setHeap exComposing exMemory = exComposing" "setHeap exKaku exMemory = exKaku"
    using setHeap_same [of exComposing] setHeap_same [of exKaku] unfolding h by simp_all
  have r: "ReplaceAndRepaint (buf exComposing) 0 (markerBlack @ fst (strings_Cut [0x868A] 0x3B) @ [])
      = \<lparr>Buffer = [0x25BC, 0x868A], Cursor = 2, KeyMap = exKeys\<rparr>"
    "ReplaceAndRepaint (buf exKaku) 0 (markerBlack @ fst (strings_Cut [0x66F8, 0x304F, 0x3B, 0x77] 0x3B) @ [])
      = \<lparr>Buffer = [0x25BC, 0x66F8, 0x304F], Cursor = 3, KeyMap = exKeys\<rparr>"
    by (simp_all add: exComposing_def exKaku_def ReplaceAndRepaint_def markerBlack_def strings_Cut_def)
  show "cmdStartHenkan exComposing ks =
     selectLoop 0 [0x304B] [] exList
       (exComposing\<lparr>buf := \<lparr>Buffer = [0x25BC, 0x868A], Cursor = 2, KeyMap = exKeys\<rparr>\<rparr>) 0 ks"
    using r(1) by (simp add: cmdStartHenkan_def s sub henkanMode_def h ex_slices sh c idx_def exCands_def
        del: selectLoop.simps)
  show "cmdStartHenkan exKaku ks =
     selectLoop 0 [0x304B, 0x304F] [] exKakuList
       (exKaku\<lparr>buf := \<lparr>Buffer = [0x25BC, 0x66F8, 0x304F], Cursor = 3, KeyMap = exKeys\<rparr>\<rparr>) 0 ks"
    using r(2) by (simp add: cmdStartHenkan_def s sub henkanMode_def h ex_slices sh c idx_def
        del: selectLoop.simps)
qed

text \<open>
  C2. The reading U+304B has five candidates. Four presses of the space key lead from
  the first candidate to the Paging state, whose page holds the fifth candidate. The
  fifth press is handled by the space branch of the paging loop, which moves the window
  to the end of the list and asks again: the controller stays in the Paging state, with
  \<^verbatim>\<open>current\<close> at the length of the list and an empty page, and does not run the
  registration block. A selection key on that page indexes the list at its length, and
  the command panics. The space branch of the outer loop has the test
  \<^verbatim>\<open>current >= len(list)\<close> that the paging loop misses: for the reading
  U+304B U+304F with its two candidates, the second press of the space key runs the
  registration block, which waits for the answer of its prompt.
\<close>

theorem advance_paging_exhausted:
  "lookup (mode exComposing) [0x304B] = Some exCands \<and> length exCands = 5
   \<and> cmdStartHenkan exComposing
       [(str '' '', False), (str '' '', False), (str '' '', False), (str '' '', False)] =
     Blocked (exComposing\<lparr>buf := \<lparr>Buffer = [0x25BC, 0x79D1], Cursor = 2, KeyMap = exKeys\<rparr>\<rparr>) (Paging 4)
   \<and> cmdStartHenkan exComposing
       [(str '' '', False), (str '' '', False), (str '' '', False), (str '' '', False),
        (str '' '', False)] =
     Blocked (exComposing\<lparr>buf := \<lparr>Buffer = [0x25BC, 0x79D1], Cursor = 2, KeyMap = exKeys\<rparr>\<rparr>) (Paging 5)
   \<and> cmdStartHenkan exComposing
       [(str '' '', False), (str '' '', False), (str '' '', False), (str '' '', False),
        (str '' '', False), (str ''a'', False)] = Crash
   \<and> lookup (mode exKaku) [0x304B, 0x304F] = Some [[0x66F8, 0x304F, 0x3B, 0x77], [0x753B, 0x304F]]
   \<and> cmdStartHenkan exKaku [(str '' '', False), (str '' '', False)] =
     Blocked (exKaku\<lparr>buf := \<lparr>Buffer = [0x25BC, 0x753B, 0x304F], Cursor = 3, KeyMap = exKeys\<rparr>\<rparr>) Registering"
proof -
  have l: "lookup (mode exComposing) [0x304B] = Some exCands"
    "lookup (mode exKaku) [0x304B, 0x304F] = Some [[0x66F8, 0x304F, 0x3B, 0x77], [0x753B, 0x304F]]"
    by (simp_all add: exComposing_def exKaku_def lookup_def lookup0_def ex_views)
  have n: "length exCands = 5" by (simp add: exCands_def)
  have c: "cands exComposing exList = [[0x868A], [0x53EF], [0x8AB2], [0x79D1], [0x706B]]"
    "cands exKaku exKakuList = [[0x66F8, 0x304F, 0x3B, 0x77], [0x753B, 0x304F]]"
    by (simp_all add: cands_def exComposing_def exKaku_def exStores_def exMemory_def ex_slices
        exCands_def [symmetric])
  have ln: "len exList = 5" "len exKakuList = 2" by (simp_all add: exList_def exKakuList_def)
  have rk: "replies exKaku = []" by (simp add: exKaku_def)
  have a: "cmdStartHenkan exComposing
       [(str '' '', False), (str '' '', False), (str '' '', False), (str '' '', False)] =
     Blocked (exComposing\<lparr>buf := \<lparr>Buffer = [0x25BC, 0x79D1], Cursor = 2, KeyMap = exKeys\<rparr>\<rparr>) (Paging 4)"
    unfolding ex_start
    by (simp add: c ln CtrlG_def str_def idx_def listingStartIndex_def
        ReplaceAndRepaint_def markerBlack_def strings_Cut_def)
  have b: "cmdStartHenkan exComposing
       [(str '' '', False), (str '' '', False), (str '' '', False), (str '' '', False),
        (str '' '', False)] =
     Blocked (exComposing\<lparr>buf := \<lparr>Buffer = [0x25BC, 0x79D1], Cursor = 2, KeyMap = exKeys\<rparr>\<rparr>) (Paging 5)"
    unfolding ex_start
    by (simp add: c ln CtrlG_def str_def idx_def listingStartIndex_def
        ReplaceAndRepaint_def markerBlack_def strings_Cut_def)
  have d: "cmdStartHenkan exComposing
       [(str '' '', False), (str '' '', False), (str '' '', False), (str '' '', False),
        (str '' '', False), (str ''a'', False)] = Crash"
    unfolding ex_start
    by (simp add: c ln CtrlG_def str_def idx_def listingStartIndex_def
        ReplaceAndRepaint_def markerBlack_def strings_Cut_def)
  have e: "cmdStartHenkan exKaku [(str '' '', False), (str '' '', False)] =
     Blocked (exKaku\<lparr>buf := \<lparr>Buffer = [0x25BC, 0x753B, 0x304F], Cursor = 3, KeyMap = exKeys\<rparr>\<rparr>) Registering"
    unfolding ex_start
    by (simp add: c ln CtrlG_def str_def idx_def listingStartIndex_def registerWord_def
        newCandidate_none rk
        ReplaceAndRepaint_def markerBlack_def strings_Cut_def)
  from l n a b d e show ?thesis by simp
qed

section \<open>The marker invariant\<close>
























section \<open>Okurigana\<close>

lemma okuri_start:
  "Trigger_Call exDispatch 0x6B exComposing ks = henkanMode exComposing 0 [0x304B, 0x6B] [0x6B] ks"
proof -
  have b: "Buffer (buf exComposing) = [] @ 0x25BD # [0x304B] @ []"
    "Cursor (buf exComposing) = int (length ([]::gostring) + Suc (length [0x304B::nat]))"
    by (simp_all add: exComposing_def)
  have m: "isMarker 0x25BD" "markerFree [0x304B]"
    by (simp_all add: isMarker_def markerFree_def markerWhite_def markerBlack_def)
  have s: "seekMarker (buf exComposing) = Some 0"
    using seekMarker_found [OF b(1) m b(2)] by simp
  have sub: "SubString (buf exComposing) 1 (Cursor (buf exComposing)) = [0x304B]"
    by (simp add: exComposing_def SubString_def)
  have v: "\<not> 0 \<le> strings_IndexByte (str ''aiueo'') 0x6B"
    by (simp add: strings_IndexByte_def str_def)
  show ?thesis
    by (simp add: Trigger_Call_def s sub v Let_def del: strings_Index.simps)
qed

lemma okuri_cands: "cands exComposing exOkuriList = exOkuriCands" "len exOkuriList = 5"
  by (simp add: cands_def exComposing_def exStores_def exMemory_def ex_slices)
    (simp add: exOkuriList_def)

lemma okuri_shown:
  "henkanMode exComposing 0 [0x304B, 0x6B] [0x6B] ks =
     selectLoop 0 [0x304B, 0x6B] [0x6B] exOkuriList
       (exComposing\<lparr>buf := \<lparr>Buffer = [0x25BC, 0x66F8, 0x6B], Cursor = 3, KeyMap = exKeys\<rparr>\<rparr>) 0 ks"
proof -
  have h: "heap (mode exComposing) = exMemory"
    by (simp add: exComposing_def exStores_def)
  have sh: "setHeap exComposing exMemory = exComposing"
    using setHeap_same [of exComposing] unfolding h by simp
  have i: "idx exOkuriCands 0 = Some [0x66F8]" by (simp add: exOkuriCands_def idx_def)
  have b: "ReplaceAndRepaint (buf exComposing) 0 (markerBlack @ fst (strings_Cut [0x66F8] 0x3B) @ [0x6B])
      = \<lparr>Buffer = [0x25BC, 0x66F8, 0x6B], Cursor = 3, KeyMap = exKeys\<rparr>"
    by (simp add: exComposing_def ReplaceAndRepaint_def markerBlack_def strings_Cut_def)
  show ?thesis by (simp add: henkanMode_def h ex_slices sh okuri_cands i b del: selectLoop.simps)
qed

text \<open>
  C3. The marked text is U+304B and the trigger key is \<^verbatim>\<open>k\<close>: the reading looked up
  is U+304B \<^verbatim>\<open>k\<close>, the postfix is the trigger character \<^verbatim>\<open>k\<close>, and the first
  candidate is shown with the postfix behind it. A commit by the Enter key leaves the
  candidate and the postfix in the buffer. A commit from the Paging state, reached by
  four presses of the space key and made by the key \<^verbatim>\<open>a\<close>, leaves the fifth candidate
  alone in the buffer: the postfix is lost.
\<close>

theorem okurigana_paging_commit:
  "Trigger_Call exDispatch 0x6B exComposing [] =
     Blocked (exComposing\<lparr>buf := \<lparr>Buffer = [0x25BC, 0x66F8, 0x6B], Cursor = 3, KeyMap = exKeys\<rparr>\<rparr>)
       (Selecting 0)
   \<and> Trigger_Call exDispatch 0x6B exComposing [([0x0D], False)] =
     Return CONTINUE (exComposing\<lparr>buf := \<lparr>Buffer = [0x66F8, 0x6B], Cursor = 2, KeyMap = exKeys\<rparr>\<rparr>) []
   \<and> Trigger_Call exDispatch 0x6B exComposing
       [(str '' '', False), (str '' '', False), (str '' '', False), (str '' '', False),
        (str ''a'', False)] =
     Return CONTINUE (exComposing\<lparr>buf := \<lparr>Buffer = [0x67B6], Cursor = 1, KeyMap = exKeys\<rparr>\<rparr>) []"
proof -
  have a: "Trigger_Call exDispatch 0x6B exComposing [] =
     Blocked (exComposing\<lparr>buf := \<lparr>Buffer = [0x25BC, 0x66F8, 0x6B], Cursor = 3, KeyMap = exKeys\<rparr>\<rparr>)
       (Selecting 0)"
    unfolding okuri_start okuri_shown by simp
  have b: "Trigger_Call exDispatch 0x6B exComposing [([0x0D], False)] =
     Return CONTINUE (exComposing\<lparr>buf := \<lparr>Buffer = [0x66F8, 0x6B], Cursor = 2, KeyMap = exKeys\<rparr>\<rparr>) []"
    unfolding okuri_start okuri_shown
    by (simp add: CtrlG_def str_def removeOne_def copyDown_def)
  have c: "Trigger_Call exDispatch 0x6B exComposing
       [(str '' '', False), (str '' '', False), (str '' '', False), (str '' '', False),
        (str ''a'', False)] =
     Return CONTINUE (exComposing\<lparr>buf := \<lparr>Buffer = [0x67B6], Cursor = 1, KeyMap = exKeys\<rparr>\<rparr>) []"
    unfolding okuri_start okuri_shown
    by (simp add: CtrlG_def str_def okuri_cands exOkuriCands_def idx_def
        listingStartIndex_def ReplaceAndRepaint_def markerBlack_def strings_Cut_def)
  from a b c show ?thesis by simp
qed

end
